theory Spec2Isabelle
  imports Complex_Main "HOL-Library.Word"
begin

unbundle bit_operations_syntax

section \<open>Feature counting of scCNVSim: an embedding of afc/core.py and utils/sam.py\<close>

text \<open>
  The two source files are \<^verbatim>\<open>sccnvsim/alignments/afc/core.py\<close> (the functions
  \<^verbatim>\<open>check_read\<close>, \<^verbatim>\<open>fc_features\<close>, \<^verbatim>\<open>fc_fet1\<close>, \<^verbatim>\<open>plp_snp\<close>) and
  \<^verbatim>\<open>sccnvsim/utils/sam.py\<close> (\<^verbatim>\<open>check_read\<close>, \<^verbatim>\<open>sam_fetch\<close>).
  The two counting machines (\<^verbatim>\<open>mcount.MCount\<close>, \<^verbatim>\<open>fcount.MCount\<close>), the
  configuration class and the alignment library are not part of these files: their
  operations are parameters of the embedding (records of functions over an abstract
  machine state), so every theorem holds for any implementation of them.
\<close>

subsection \<open>Python values\<close>

text \<open>
  Exceptions are values. \<open>LookupError\<close> is Python's common base class of
  \<^verbatim>\<open>KeyError\<close> and \<^verbatim>\<open>IndexError\<close> (a missing dictionary key, an index out of range);
  \<open>TypeError\<close> is subscripting \<^verbatim>\<open>None\<close>; \<open>RuntimeError\<close> carries its message.
\<close>

datatype error = LookupError | TypeError | RuntimeError string

definition ebind :: "error + 'a \<Rightarrow> ('a \<Rightarrow> error + 'b) \<Rightarrow> error + 'b" where
  "ebind x f = (case x of Inl e \<Rightarrow> Inl e | Inr v \<Rightarrow> f v)"

text \<open>\<^verbatim>\<open>xs[i]\<close> on a list: a negative index counts from the end, out of range raises.\<close>

definition py_index :: "'a list \<Rightarrow> int \<Rightarrow> error + 'a" where
  "py_index xs i =
     (if 0 \<le> i \<and> i < int (length xs) then Inr (xs ! nat i)
      else if i < 0 \<and> - int (length xs) \<le> i then Inr (xs ! nat (int (length xs) + i))
      else Inl LookupError)"

text \<open>\<^verbatim>\<open>d[k]\<close> on a dictionary.\<close>

definition py_get :: "('k \<rightharpoonup> 'v) \<Rightarrow> 'k \<Rightarrow> error + 'v" where
  "py_get d k = (case d k of None \<Rightarrow> Inl LookupError | Some v \<Rightarrow> Inr v)"

text \<open>The conversion \<^verbatim>\<open>%d\<close> of an integer: decimal digits, a minus sign when negative.\<close>

definition digit_char :: "nat \<Rightarrow> char" where
  "digit_char n = ''0123456789'' ! n"

fun dec_digits :: "nat \<Rightarrow> string" where
  "dec_digits n =
     (if n < 10 then [digit_char n] else dec_digits (n div 10) @ [digit_char (n mod 10)])"

declare dec_digits.simps [simp del]

definition fmt_d :: "int \<Rightarrow> string" where
  "fmt_d i = (if i < 0 then CHR ''-'' # dec_digits (nat (- i)) else dec_digits (nat i))"

definition TAB :: char where "TAB = CHR 0x09"
definition NL :: char where "NL = CHR 0x0A"

subsection \<open>Reads, configuration, SNPs and regions\<close>

text \<open>
  What the code reads of an aligned read: \<^verbatim>\<open>read.mapq\<close>, \<^verbatim>\<open>read.flag\<close>,
  \<^verbatim>\<open>read.has_tag(name)\<close> (the names of the tags the read carries) and
  \<^verbatim>\<open>read.positions\<close>. Python integers are unbounded, so they are \<open>int\<close>.
\<close>

record read =
  mapq :: int
  flag :: int
  tags :: "string list"
  positions :: "int list"

text \<open>
  The fields of \<^verbatim>\<open>conf\<close> the two files read. \<^verbatim>\<open>conf.min_maf\<close> is a fraction; it is
  a real number here and the product \<^verbatim>\<open>snp_cnt * conf.min_maf\<close> is exact.
  \<^verbatim>\<open>conf.use_barcodes()\<close> is a method of the configuration class; its result is
  the field \<open>use_barcodes\<close>.
\<close>

record config =
  min_mapq :: int
  excl_flag :: int
  incl_flag :: int
  no_orphan :: bool
  cell_tag :: "string option"
  umi_tag :: "string option"
  min_len :: int
  min_count :: int
  min_maf :: real
  no_dup_hap :: bool
  samples :: "string list"
  use_barcodes :: bool

record snp =
  snp_chrom :: string
  snp_pos :: int
  snp_ref :: string
  snp_alt :: string

record region =
  reg_chrom :: string
  reg_start :: int
  reg_end :: int
  reg_name :: string
  snp_list :: "snp list"

subsection \<open>utils/sam.py and core.py: \<^verbatim>\<open>check_read\<close>\<close>

definition BAM_FPAIRED :: int where "BAM_FPAIRED = 1"
definition BAM_FPROPER_PAIR :: int where "BAM_FPROPER_PAIR = 2"

text \<open>Python truth values: an integer is true when nonzero, a string when it is
  neither \<^verbatim>\<open>None\<close> nor empty.\<close>

definition truthy_int :: "int \<Rightarrow> bool" where
  "truthy_int n = (n \<noteq> 0)"

definition has_tag :: "read \<Rightarrow> string \<Rightarrow> bool" where
  "has_tag r t = (t \<in> set (tags r))"

text \<open>\<^verbatim>\<open>conf.cell_tag and not read.has_tag(conf.cell_tag)\<close>, for either tag name.\<close>

fun tag_missing :: "string option \<Rightarrow> read \<Rightarrow> bool" where
  "tag_missing None r = False"
| "tag_missing (Some t) r = (t \<noteq> [] \<and> \<not> has_tag r t)"

definition check_read :: "read \<Rightarrow> config \<Rightarrow> int" where
  "check_read r conf =
    (if mapq r < min_mapq conf then -2
     else if truthy_int (excl_flag conf) \<and> truthy_int (flag r AND excl_flag conf) then -3
     else if truthy_int (incl_flag conf) \<and> \<not> truthy_int (flag r AND incl_flag conf) then -4
     else if no_orphan conf \<and> truthy_int (flag r AND BAM_FPAIRED)
             \<and> \<not> truthy_int (flag r AND BAM_FPROPER_PAIR) then -5
     else if tag_missing (cell_tag conf) r then -11
     else if tag_missing (umi_tag conf) r then -12
     else if int (length (positions r)) < min_len conf then -21
     else 0)"

subsection \<open>utils/sam.py: \<^verbatim>\<open>sam_fetch\<close>\<close>

text \<open>
  \<^verbatim>\<open>sam.fetch(chrom, start, end)\<close> of the alignment library either raises or returns an
  iterator object. The code tests the object's truth value (\<^verbatim>\<open>if itr\<close>) and iterates it
  (\<^verbatim>\<open>for read in itr\<close>); both are fields of the model of the iterator. An alignment file
  is its \<^verbatim>\<open>fetch\<close> method.
\<close>

record read_iter =
  it_truthy :: bool
  it_reads :: "read list"

datatype fetch_result = FetchRaised | Fetched read_iter

type_synonym sam = "string \<Rightarrow> int option \<Rightarrow> int option \<Rightarrow> fetch_result"

text \<open>\<^verbatim>\<open>chrom[3:] if chrom.startswith("chr") else "chr" + chrom\<close>\<close>

definition alt_chrom :: "string \<Rightarrow> string" where
  "alt_chrom chrom = (if take 3 chrom = ''chr'' then drop 3 chrom else ''chr'' @ chrom)"

definition sam_fetch :: "sam \<Rightarrow> string \<Rightarrow> int option \<Rightarrow> int option \<Rightarrow> read_iter option" where
  "sam_fetch sam chrom start end' =
    (let start0 = (case start of None \<Rightarrow> None | Some s \<Rightarrow> Some (s - 1));
         first = (case sam chrom start0 end' of
                    FetchRaised \<Rightarrow> None
                  | Fetched itr \<Rightarrow> if it_truthy itr then Some itr else None)
     in case first of
          Some itr \<Rightarrow> Some itr
        | None \<Rightarrow>
            (case sam (alt_chrom chrom) start0 end' of
               FetchRaised \<Rightarrow> None
             | Fetched itr \<Rightarrow> if it_truthy itr then Some itr else None))"

subsection \<open>The counting machines, as parameters\<close>

text \<open>
  The SNP counting machine \<^verbatim>\<open>mcount.MCount\<close> over an abstract state \<open>'m\<close>: the three
  methods the code calls return a code and change the machine; \<^verbatim>\<open>tcount\<close> is a list
  of integers and \<^verbatim>\<open>base_idx\<close> a dictionary from a base to an index into it.
  \<^verbatim>\<open>push_read(read)\<close> is \<open>push_read m r None\<close>, \<^verbatim>\<open>push_read(read, sample)\<close> is
  \<open>push_read m r (Some sample)\<close>.
\<close>

record 'm snp_mcount =
  add_snp :: "'m \<Rightarrow> snp \<Rightarrow> int \<times> 'm"
  push_read :: "'m \<Rightarrow> read \<Rightarrow> string option \<Rightarrow> int \<times> 'm"
  stat :: "'m \<Rightarrow> int \<times> 'm"
  tcount :: "'m \<Rightarrow> int list"
  base_idx :: "'m \<Rightarrow> string \<rightharpoonup> int"

text \<open>
  The feature counting machine \<^verbatim>\<open>fcount.MCount\<close> over an abstract state \<open>'f\<close>.
  \<^verbatim>\<open>cell_cnt.items()\<close> is the list of its (sample, counter) pairs in iteration order;
  a counter's \<^verbatim>\<open>allele_cnt\<close> is subscripted by 0, 1, 2 and -1, so it is a partial map
  from integers.
\<close>

type_synonym allele_cnt = "int \<rightharpoonup> int"

record ('m, 'f) fet_mcount =
  add_region :: "'f \<Rightarrow> region \<Rightarrow> 'f"
  push_snp :: "'f \<Rightarrow> 'm \<Rightarrow> int \<times> 'f"
  fstat :: "'f \<Rightarrow> int \<times> 'f"
  cell_cnt :: "'f \<Rightarrow> (string \<times> allele_cnt) list"

subsection \<open>core.py: \<^verbatim>\<open>plp_snp\<close>\<close>

text \<open>
  The sample argument of \<^verbatim>\<open>push_read\<close> (lines 192-196): none with barcodes,
  \<^verbatim>\<open>conf.samples[idx]\<close> otherwise.
\<close>

definition read_sample :: "config \<Rightarrow> nat \<Rightarrow> error + string option" where
  "read_sample conf idx =
     (if use_barcodes conf then Inr None
      else ebind (py_index (samples conf) (int idx)) (\<lambda>sample. Inr (Some sample)))"

text \<open>The loop \<^verbatim>\<open>for read in itr\<close> (lines 189-200). The result \<open>Some c\<close> is the early
  \<^verbatim>\<open>return((c, mcnt))\<close>, \<open>None\<close> is the loop running to its end.\<close>

fun plp_reads ::
  "'m snp_mcount \<Rightarrow> config \<Rightarrow> nat \<Rightarrow> read list \<Rightarrow> 'm \<Rightarrow> error + (int option \<times> 'm)" where
  "plp_reads ops conf idx [] m = Inr (None, m)"
| "plp_reads ops conf idx (r # rs) m =
    (if check_read r conf < 0 then plp_reads ops conf idx rs m
     else
       (case read_sample conf idx of
          Inl e \<Rightarrow> Inl e
        | Inr smp \<Rightarrow>
            (case push_read ops m r smp of
               (ret, m') \<Rightarrow>
                 if ret < 0 then
                   (if ret = -1 then Inr (Some (-5), m')
                    else plp_reads ops conf idx rs m')
                 else plp_reads ops conf idx rs m')))"

text \<open>The loop \<^verbatim>\<open>for idx, sam in enumerate(sam_list)\<close> (lines 185-200).\<close>

fun plp_sams ::
  "'m snp_mcount \<Rightarrow> config \<Rightarrow> snp \<Rightarrow> nat \<Rightarrow> sam list \<Rightarrow> 'm \<Rightarrow> error + (int option \<times> 'm)" where
  "plp_sams ops conf s idx [] m = Inr (None, m)"
| "plp_sams ops conf s idx (sam # sams) m =
    (case sam_fetch sam (snp_chrom s) (Some (snp_pos s)) (Some (snp_pos s)) of
       None \<Rightarrow> plp_sams ops conf s (Suc idx) sams m
     | Some itr \<Rightarrow>
         if \<not> it_truthy itr then plp_sams ops conf s (Suc idx) sams m
         else
           (case plp_reads ops conf idx (it_reads itr) m of
              Inl e \<Rightarrow> Inl e
            | Inr (Some c, m') \<Rightarrow> Inr (Some c, m')
            | Inr (None, m') \<Rightarrow> plp_sams ops conf s (Suc idx) sams m'))"

text \<open>The SNP-level QC test on the finalized tally (lines 203-211).\<close>

definition snp_qc :: "int list \<Rightarrow> (string \<rightharpoonup> int) \<Rightarrow> snp \<Rightarrow> config \<Rightarrow> error + int" where
  "snp_qc tc bidx s conf =
    (let snp_cnt = sum_list tc in
     if snp_cnt < min_count conf then Inr 3
     else
       ebind (py_get bidx (snp_ref s)) (\<lambda>ir.
       ebind (py_index tc ir) (\<lambda>snp_ref_cnt.
       ebind (py_get bidx (snp_alt s)) (\<lambda>ia.
       ebind (py_index tc ia) (\<lambda>snp_alt_cnt.
         let snp_minor_cnt = min snp_ref_cnt snp_alt_cnt in
         if real_of_int snp_minor_cnt < real_of_int snp_cnt * min_maf conf then Inr 5
         else Inr 0)))))"

definition plp_snp ::
  "'m snp_mcount \<Rightarrow> config \<Rightarrow> snp \<Rightarrow> sam list \<Rightarrow> 'm \<Rightarrow> error + (int \<times> 'm)" where
  "plp_snp ops conf s sam_list mcnt =
    (case add_snp ops mcnt s of
       (r0, m0) \<Rightarrow>
         if r0 < 0 then Inr (-3, m0)
         else
           (case plp_sams ops conf s 0 sam_list m0 of
              Inl e \<Rightarrow> Inl e
            | Inr (Some c, m1) \<Rightarrow> Inr (c, m1)
            | Inr (None, m1) \<Rightarrow>
                (case stat ops m1 of
                   (r2, m2) \<Rightarrow>
                     if r2 < 0 then Inr (-7, m2)
                     else ebind (snp_qc (tcount ops m2) (base_idx ops m2) s conf)
                            (\<lambda>c. Inr (c, m2)))))"

subsection \<open>core.py: \<^verbatim>\<open>fc_fet1\<close>\<close>

text \<open>The loop \<^verbatim>\<open>for snp in reg.snp_list\<close> (lines 134-144); \<open>Some c\<close> is the early
  return of the code \<open>c\<close>.\<close>

fun fc_fet1_snps ::
  "'m snp_mcount \<Rightarrow> ('m, 'f) fet_mcount \<Rightarrow> config \<Rightarrow> sam list \<Rightarrow> snp list \<Rightarrow> 'm \<Rightarrow> 'f
     \<Rightarrow> error + (int option \<times> 'm \<times> 'f)" where
  "fc_fet1_snps sops fops conf sam_list [] sm fm = Inr (None, sm, fm)"
| "fc_fet1_snps sops fops conf sam_list (s # rest) sm fm =
    (case plp_snp sops conf s sam_list sm of
       Inl e \<Rightarrow> Inl e
     | Inr (ret, sm') \<Rightarrow>
         if ret < 0 then Inr (Some (-3), sm', fm)
         else if ret > 0 then fc_fet1_snps sops fops conf sam_list rest sm' fm
         else
           (case push_snp fops fm sm' of
              (r, fm') \<Rightarrow>
                if r < 0 then Inr (Some (-5), sm', fm')
                else fc_fet1_snps sops fops conf sam_list rest sm' fm'))"

type_synonym cnt_dict = "string \<rightharpoonup> int"

text \<open>One pass of the body of \<^verbatim>\<open>for smp, scnt in mcnt.cell_cnt.items()\<close>
  (lines 153-158): the values stored under \<^verbatim>\<open>smp\<close> in the three dictionaries.\<close>

definition smp_cnts :: "config \<Rightarrow> allele_cnt \<Rightarrow> error + (int \<times> int \<times> int)" where
  "smp_cnts conf ac =
     ebind (py_get ac 1) (\<lambda>a1.
     ebind (py_get ac 0) (\<lambda>a0.
     ebind (py_get ac (-1)) (\<lambda>ao.
       if \<not> no_dup_hap conf then
         ebind (py_get ac 2) (\<lambda>a2. Inr (a1 + a2, a0 + a1 + a2 * 2, ao))
       else Inr (a1, a0 + a1, ao))))"

fun reg_cnts_loop ::
  "config \<Rightarrow> (string \<times> allele_cnt) list \<Rightarrow> cnt_dict \<times> cnt_dict \<times> cnt_dict
     \<Rightarrow> error + (cnt_dict \<times> cnt_dict \<times> cnt_dict)" where
  "reg_cnts_loop conf [] acc = Inr acc"
| "reg_cnts_loop conf ((smp, ac) # rest) (reg_alt_cnt, reg_dp_cnt, reg_oth_cnt) =
     (case smp_cnts conf ac of
        Inl e \<Rightarrow> Inl e
      | Inr (a, d, ot) \<Rightarrow>
          reg_cnts_loop conf rest
            (reg_alt_cnt(smp \<mapsto> a), reg_dp_cnt(smp \<mapsto> d), reg_oth_cnt(smp \<mapsto> ot)))"

text \<open>\<^verbatim>\<open>{smp:0 for smp in conf.samples}\<close>\<close>

definition zero_cnt :: "config \<Rightarrow> cnt_dict" where
  "zero_cnt conf = (\<lambda>smp. if smp \<in> set (samples conf) then Some 0 else None)"

definition reg_cnts ::
  "config \<Rightarrow> (string \<times> allele_cnt) list \<Rightarrow> error + (cnt_dict \<times> cnt_dict \<times> cnt_dict)" where
  "reg_cnts conf cc = reg_cnts_loop conf cc (zero_cnt conf, zero_cnt conf, zero_cnt conf)"

text \<open>The result \<^verbatim>\<open>(ret, reg_alt_cnt, reg_dp_cnt, reg_oth_cnt)\<close>: the three
  dictionaries are \<^verbatim>\<open>None\<close> together. The machines are returned updated.\<close>

definition fc_fet1 ::
  "'m snp_mcount \<Rightarrow> ('m, 'f) fet_mcount \<Rightarrow> config \<Rightarrow> region \<Rightarrow> sam list \<Rightarrow> 'm \<Rightarrow> 'f
     \<Rightarrow> error + (int \<times> (cnt_dict \<times> cnt_dict \<times> cnt_dict) option \<times> 'm \<times> 'f)" where
  "fc_fet1 sops fops conf reg sam_list snp_mcnt mcnt =
    (case fc_fet1_snps sops fops conf sam_list (snp_list reg) snp_mcnt mcnt of
       Inl e \<Rightarrow> Inl e
     | Inr (Some c, sm, fm) \<Rightarrow> Inr (c, None, sm, fm)
     | Inr (None, sm, fm) \<Rightarrow>
         (case fstat fops fm of
            (r, fm') \<Rightarrow>
              if r < 0 then Inr (-7, None, sm, fm')
              else ebind (reg_cnts conf (cell_cnt fops fm'))
                     (\<lambda>cnts. Inr (0, Some cnts, sm, fm'))))"

subsection \<open>core.py: \<^verbatim>\<open>fc_features\<close>\<close>

text \<open>
  The worker's data \<^verbatim>\<open>thdata\<close>: its return code and its counters of regions and of
  AD, DP and OTH records. The four output files are opened by \<^verbatim>\<open>fc_features\<close> for
  writing; the text written to each so far is carried in the same record.
\<close>

record thdata =
  ret :: int
  nr_reg :: int
  nr_ad :: int
  nr_dp :: int
  nr_oth :: int
  fp_reg :: string
  fp_ad :: string
  fp_dp :: string
  fp_oth :: string

text \<open>\<^verbatim>\<open>"%s\t%d\t%d\t%s\n" % (reg.chrom, reg.start, reg.end - 1, reg.name)\<close>\<close>

definition str_reg :: "region \<Rightarrow> string" where
  "str_reg reg =
     reg_chrom reg @ [TAB] @ fmt_d (reg_start reg) @ [TAB] @ fmt_d (reg_end reg - 1)
       @ [TAB] @ reg_name reg @ [NL]"

text \<open>\<^verbatim>\<open>"%d\t%d\t%d\n" % (reg_idx + 1, i + 1, nu)\<close>\<close>

definition str_cnt :: "nat \<Rightarrow> nat \<Rightarrow> int \<Rightarrow> string" where
  "str_cnt reg_idx i nu =
     fmt_d (int reg_idx + 1) @ [TAB] @ fmt_d (int i + 1) @ [TAB] @ fmt_d nu @ [NL]"

text \<open>The three \<^verbatim>\<open>if\<close> statements of lines 91-99, on the strings
  \<^verbatim>\<open>str_ad, str_dp, str_oth\<close> and the counters of \<^verbatim>\<open>thdata\<close>.\<close>

definition emit_one ::
  "nat \<Rightarrow> nat \<Rightarrow> int \<Rightarrow> int \<Rightarrow> int \<Rightarrow> string \<times> string \<times> string \<times> thdata
     \<Rightarrow> string \<times> string \<times> string \<times> thdata" where
  "emit_one reg_idx i nu_ad nu_dp nu_oth acc =
    (case acc of
       (str_ad, str_dp, str_oth, th) \<Rightarrow>
         (let (str_ad1, th1) =
                (if nu_ad > 0 then (str_ad @ str_cnt reg_idx i nu_ad, th\<lparr>nr_ad := nr_ad th + 1\<rparr>)
                 else (str_ad, th));
              (str_dp1, th2) =
                (if nu_dp > 0 then (str_dp @ str_cnt reg_idx i nu_dp, th1\<lparr>nr_dp := nr_dp th1 + 1\<rparr>)
                 else (str_dp, th1));
              (str_oth1, th3) =
                (if nu_oth > 0 then (str_oth @ str_cnt reg_idx i nu_oth, th2\<lparr>nr_oth := nr_oth th2 + 1\<rparr>)
                 else (str_oth, th2))
          in (str_ad1, str_dp1, str_oth1, th3)))"

text \<open>The loop \<^verbatim>\<open>for i, smp in enumerate(conf.samples)\<close> (lines 85-99). An exception
  leaves the worker's data as it was when raised.\<close>

fun emit_samples ::
  "nat \<Rightarrow> nat \<Rightarrow> string list \<Rightarrow> cnt_dict \<times> cnt_dict \<times> cnt_dict
     \<Rightarrow> string \<times> string \<times> string \<times> thdata
     \<Rightarrow> (error \<times> thdata) + (string \<times> string \<times> string \<times> thdata)" where
  "emit_samples reg_idx i [] cnts acc = Inr acc"
| "emit_samples reg_idx i (smp # rest) cnts acc =
    (case cnts of
       (reg_alt_cnt, reg_dp_cnt, reg_oth_cnt) \<Rightarrow>
         (case ebind (py_get reg_alt_cnt smp) (\<lambda>nu_ad.
                ebind (py_get reg_dp_cnt smp) (\<lambda>nu_dp.
                ebind (py_get reg_oth_cnt smp) (\<lambda>nu_oth. Inr (nu_ad, nu_dp, nu_oth)))) of
            Inl e \<Rightarrow> Inl (e, snd (snd (snd acc)))
          | Inr (nu_ad, nu_dp, nu_oth) \<Rightarrow>
              if nu_dp + nu_oth \<le> 0 then emit_samples reg_idx (Suc i) rest cnts acc
              else emit_samples reg_idx (Suc i) rest cnts
                     (emit_one reg_idx i nu_ad nu_dp nu_oth acc)))"

text \<open>\<^verbatim>\<open>if str_dp or str_oth:\<close> and the three writes (lines 101-104).\<close>

definition write_cnts :: "string \<times> string \<times> string \<times> thdata \<Rightarrow> thdata" where
  "write_cnts acc =
    (case acc of
       (str_ad, str_dp, str_oth, th) \<Rightarrow>
         if str_dp \<noteq> [] \<or> str_oth \<noteq> [] then
           th\<lparr>fp_ad := fp_ad th @ str_ad, fp_dp := fp_dp th @ str_dp,
              fp_oth := fp_oth th @ str_oth\<rparr>
         else th)"

text \<open>
  The body of \<^verbatim>\<open>for reg_idx, reg in enumerate(reg_list)\<close> (lines 67-104; logging
  left out). The state is the worker's data with the two counting machines. An
  exception (\<open>Inl\<close>) stops the worker; it carries the worker's data, with the files
  as written so far.
\<close>

definition fc_region ::
  "'m snp_mcount \<Rightarrow> ('m, 'f) fet_mcount \<Rightarrow> config \<Rightarrow> sam list \<Rightarrow> nat \<Rightarrow> region
     \<Rightarrow> thdata \<times> 'm \<times> 'f \<Rightarrow> (error \<times> thdata) + (thdata \<times> 'm \<times> 'f)" where
  "fc_region sops fops conf sam_list reg_idx reg st =
    (case st of
       (th, snp_mcnt, mcnt) \<Rightarrow>
         (let mcnt1 = add_region fops mcnt reg;
              th1 = th\<lparr>fp_reg := fp_reg th @ str_reg reg\<rparr>
          in if snp_list reg = [] then Inr (th1, snp_mcnt, mcnt1)
             else
               (case fc_fet1 sops fops conf reg sam_list snp_mcnt mcnt1 of
                  Inl e \<Rightarrow> Inl (e, th1)
                | Inr (r, cnts, sm, fm) \<Rightarrow>
                    if r < 0 then Inl (RuntimeError ''errcode -9'', th1)
                    else
                      (case cnts of
                         None \<Rightarrow> Inl (TypeError, th1)
                       | Some c \<Rightarrow>
                           (case emit_samples reg_idx 0 (samples conf) c ([], [], [], th1) of
                              Inl e \<Rightarrow> Inl e
                            | Inr acc \<Rightarrow> Inr (write_cnts acc, sm, fm))))))"

fun fc_regions ::
  "'m snp_mcount \<Rightarrow> ('m, 'f) fet_mcount \<Rightarrow> config \<Rightarrow> sam list \<Rightarrow> nat \<Rightarrow> region list
     \<Rightarrow> thdata \<times> 'm \<times> 'f \<Rightarrow> (error \<times> thdata) + (thdata \<times> 'm \<times> 'f)" where
  "fc_regions sops fops conf sam_list reg_idx [] st = Inr st"
| "fc_regions sops fops conf sam_list reg_idx (reg # rest) st =
    (case fc_region sops fops conf sam_list reg_idx reg st of
       Inl e \<Rightarrow> Inl e
     | Inr st' \<Rightarrow> fc_regions sops fops conf sam_list (Suc reg_idx) rest st')"

text \<open>
  \<^verbatim>\<open>fc_features\<close>: \<^verbatim>\<open>thdata.ret = -1\<close>, the four files opened empty, the loop over
  the regions, then \<^verbatim>\<open>thdata.nr_reg = len(reg_list)\<close> and \<^verbatim>\<open>thdata.ret = 0\<close>. The
  opened alignment files, the region list and the two fresh counting machines are
  arguments.
\<close>

definition fc_features ::
  "'m snp_mcount \<Rightarrow> ('m, 'f) fet_mcount \<Rightarrow> config \<Rightarrow> sam list \<Rightarrow> region list
     \<Rightarrow> thdata \<Rightarrow> 'm \<Rightarrow> 'f \<Rightarrow> (error \<times> thdata) + thdata" where
  "fc_features sops fops conf sam_list reg_list th snp_mcnt mcnt =
    (let th0 = th\<lparr>ret := -1, fp_reg := [], fp_ad := [], fp_dp := [], fp_oth := []\<rparr>
     in case fc_regions sops fops conf sam_list 0 reg_list (th0, snp_mcnt, mcnt) of
          Inl e \<Rightarrow> Inl e
        | Inr (th1, sm, fm) \<Rightarrow> Inr (th1\<lparr>nr_reg := int (length reg_list), ret := 0\<rparr>))"

section \<open>The specification's vocabulary and concrete inputs\<close>

subsection \<open>The read qualifier (specification, section 4.1)\<close>

text \<open>The seven conditions of the specification, each in its words: a mask is
  configured when it is nonzero, a tag name when it is given and not empty.\<close>

definition mapq_ok :: "read \<Rightarrow> config \<Rightarrow> bool" where
  "mapq_ok r conf = (min_mapq conf \<le> mapq r)"

definition excl_ok :: "read \<Rightarrow> config \<Rightarrow> bool" where
  "excl_ok r conf = (excl_flag conf \<noteq> 0 \<longrightarrow> flag r AND excl_flag conf = 0)"

definition incl_ok :: "read \<Rightarrow> config \<Rightarrow> bool" where
  "incl_ok r conf = (incl_flag conf \<noteq> 0 \<longrightarrow> flag r AND incl_flag conf \<noteq> 0)"

definition orphan_ok :: "read \<Rightarrow> config \<Rightarrow> bool" where
  "orphan_ok r conf =
     (no_orphan conf \<and> flag r AND BAM_FPAIRED \<noteq> 0 \<longrightarrow> flag r AND BAM_FPROPER_PAIR \<noteq> 0)"

definition tag_ok :: "string option \<Rightarrow> read \<Rightarrow> bool" where
  "tag_ok tag r = (case tag of None \<Rightarrow> True | Some t \<Rightarrow> t \<noteq> [] \<longrightarrow> t \<in> set (tags r))"

definition len_ok :: "read \<Rightarrow> config \<Rightarrow> bool" where
  "len_ok r conf = (min_len conf \<le> int (length (positions r)))"

text \<open>The number of reads of a read set that qualify.\<close>

definition nr_qualified :: "config \<Rightarrow> read list \<Rightarrow> nat" where
  "nr_qualified conf rs = length (filter (\<lambda>r. check_read r conf = 0) rs)"

text \<open>
  One threshold loosened, every other field equal: a lower minimum mapping quality, a
  lower minimum length, an inclusion mask disabled or (when configured) given more bits,
  an exclusion mask with bits removed (zero disables it).
\<close>

definition loosened :: "config \<Rightarrow> config \<Rightarrow> bool" where
  "loosened conf conf' =
     ((conf' = conf\<lparr>min_mapq := min_mapq conf'\<rparr> \<and> min_mapq conf' \<le> min_mapq conf)
      \<or> (conf' = conf\<lparr>min_len := min_len conf'\<rparr> \<and> min_len conf' \<le> min_len conf)
      \<or> (conf' = conf\<lparr>incl_flag := incl_flag conf'\<rparr>
           \<and> (incl_flag conf' = 0
                \<or> incl_flag conf \<noteq> 0 \<and> incl_flag conf AND incl_flag conf' = incl_flag conf))
      \<or> (conf' = conf\<lparr>excl_flag := excl_flag conf'\<rparr>
           \<and> excl_flag conf' AND excl_flag conf = excl_flag conf'))"

subsection \<open>The read source (specification, section 6)\<close>


subsection \<open>The records of a region (specification, sections 3 and 4.4)\<close>

text \<open>
  A sample is considered for output when its \<^verbatim>\<open>dp_count + oth_count\<close> is positive.
  The rows of one count matrix for a region are the considered samples with a positive
  count, in the order of the sample list, each with its 0-based position. A row is
  written as the triplet region index, sample index, count, both indices 1-based, tab
  separated, one line each. \<open>region_out\<close> is the worker's data after a region with
  counts: the region line, the rows of the three matrices appended to the three count
  files, and each record counter advanced by the number of its rows.
\<close>

definition considered :: "cnt_dict \<times> cnt_dict \<times> cnt_dict \<Rightarrow> string \<Rightarrow> bool" where
  "considered cnts smp = (case cnts of (alt, dp, oth) \<Rightarrow> 0 < the (dp smp) + the (oth smp))"

definition sparse_rows ::
  "cnt_dict \<Rightarrow> cnt_dict \<times> cnt_dict \<times> cnt_dict \<Rightarrow> nat \<Rightarrow> string list \<Rightarrow> (nat \<times> int) list" where
  "sparse_rows m cnts i smps =
     map (\<lambda>(k, smp). (k, the (m smp)))
       (filter (\<lambda>(k, smp). considered cnts smp \<and> 0 < the (m smp)) (enumerate i smps))"

definition triplets :: "nat \<Rightarrow> (nat \<times> int) list \<Rightarrow> string" where
  "triplets reg_idx rows =
     concat (map (\<lambda>(k, n). fmt_d (int reg_idx + 1) @ [TAB] @ fmt_d (int k + 1) @ [TAB]
                              @ fmt_d n @ [NL]) rows)"

definition region_out ::
  "nat \<Rightarrow> region \<Rightarrow> string list \<Rightarrow> cnt_dict \<times> cnt_dict \<times> cnt_dict \<Rightarrow> thdata \<Rightarrow> thdata" where
  "region_out reg_idx reg smps cnts th =
     (case cnts of
        (alt, dp, oth) \<Rightarrow>
          th\<lparr>fp_reg := fp_reg th @ str_reg reg,
             fp_ad := fp_ad th @ triplets reg_idx (sparse_rows alt cnts 0 smps),
             fp_dp := fp_dp th @ triplets reg_idx (sparse_rows dp cnts 0 smps),
             fp_oth := fp_oth th @ triplets reg_idx (sparse_rows oth cnts 0 smps),
             nr_ad := nr_ad th + int (length (sparse_rows alt cnts 0 smps)),
             nr_dp := nr_dp th + int (length (sparse_rows dp cnts 0 smps)),
             nr_oth := nr_oth th + int (length (sparse_rows oth cnts 0 smps))\<rparr>)"

subsection \<open>Concrete inputs\<close>

definition demo_conf :: config where
  "demo_conf = \<lparr>min_mapq = 20, excl_flag = 1796, incl_flag = 3, no_orphan = True,
     cell_tag = Some ''CB'', umi_tag = Some ''UB'', min_len = 3, min_count = 10,
     min_maf = 0.2, no_dup_hap = False, samples = [''S1'', ''S2''], use_barcodes = False\<rparr>"

definition demo_read :: read where
  "demo_read = \<lparr>mapq = 30, flag = 3, tags = [''CB'', ''UB''], positions = [999, 1000, 1001]\<rparr>"

text \<open>
  Two small counting machines to run the embedding on. The SNP machine is scripted:
  the k-th call of \<^verbatim>\<open>push_read\<close> returns the k-th code of its script (-1 when the
  script is exhausted), and a code from 0 to 4 counts one read for the base with that
  index (A, C, G, T, N). The feature machine keeps, per sample, the four counters
  reference, alternative, duplicate-haplotype and other; \<^verbatim>\<open>add_region\<close> clears
  them, and \<^verbatim>\<open>push_snp\<close> credits a tally to the first sample (A as reference, G as
  alternative, every other base as other).
\<close>

record mock_tally =
  script :: "int list"
  tc :: "int list"

definition mock_push_read :: "mock_tally \<Rightarrow> read \<Rightarrow> string option \<Rightarrow> int \<times> mock_tally" where
  "mock_push_read m r smp =
     (case script m of
        [] \<Rightarrow> (-1, m)
      | c # cs \<Rightarrow>
          (c, m\<lparr>script := cs,
                tc := (if 0 \<le> c \<and> c < 5 then (tc m)[nat c := tc m ! nat c + 1] else tc m)\<rparr>))"

definition mock_snp_ops :: "mock_tally snp_mcount" where
  "mock_snp_ops =
     \<lparr>add_snp = (\<lambda>m s. (0, m\<lparr>tc := [0, 0, 0, 0, 0]\<rparr>)),
      push_read = mock_push_read,
      stat = (\<lambda>m. (0, m)),
      tcount = tc,
      base_idx = (\<lambda>m. [''A'' \<mapsto> 0, ''C'' \<mapsto> 1, ''G'' \<mapsto> 2, ''T'' \<mapsto> 3, ''N'' \<mapsto> 4])\<rparr>"

type_synonym mock_feature = "(string \<times> int \<times> int \<times> int \<times> int) list"

definition mock_allele_cnt :: "int \<times> int \<times> int \<times> int \<Rightarrow> allele_cnt" where
  "mock_allele_cnt c = (case c of (r, a, d, ot) \<Rightarrow> [0 \<mapsto> r, 1 \<mapsto> a, 2 \<mapsto> d, -1 \<mapsto> ot])"

fun mock_credit :: "int list \<Rightarrow> mock_feature \<Rightarrow> mock_feature" where
  "mock_credit t [] = []"
| "mock_credit t ((smp, r, a, d, ot) # rest) =
     (smp, r + t ! 0, a + t ! 2, d, ot + t ! 1 + t ! 3 + t ! 4) # rest"

definition mock_fet_ops :: "(mock_tally, mock_feature) fet_mcount" where
  "mock_fet_ops =
     \<lparr>add_region = (\<lambda>f reg. map (\<lambda>(smp, c). (smp, 0, 0, 0, 0)) f),
      push_snp = (\<lambda>f m. (0, mock_credit (tc m) f)),
      fstat = (\<lambda>f. (0, f)),
      cell_cnt = map (\<lambda>(smp, c). (smp, mock_allele_cnt c))\<rparr>"

text \<open>The example of the specification (section 8, example 6): one region with the
  SNP chr1:1000 A>G, ten reads, six of them A and four G, in a file that names the
  chromosome without the prefix.\<close>

definition demo_snp :: snp where
  "demo_snp = \<lparr>snp_chrom = ''chr1'', snp_pos = 1000, snp_ref = ''A'', snp_alt = ''G''\<rparr>"

definition demo_region :: region where
  "demo_region = \<lparr>reg_chrom = ''chr1'', reg_start = 900, reg_end = 1101, reg_name = ''geneA'',
     snp_list = [demo_snp]\<rparr>"

definition demo_itr :: read_iter where
  "demo_itr = \<lparr>it_truthy = True,
     it_reads = [demo_read, demo_read, demo_read, demo_read, demo_read,
                 demo_read, demo_read, demo_read, demo_read, demo_read]\<rparr>"

definition demo_sam :: sam where
  "demo_sam chrom start end' =
     (if chrom = ''1'' \<and> start = Some 999 \<and> end' = Some 1000 then Fetched demo_itr
      else FetchRaised)"

definition demo_thdata :: thdata where
  "demo_thdata = \<lparr>ret = 0, nr_reg = 0, nr_ad = 0, nr_dp = 0, nr_oth = 0,
     fp_reg = [], fp_ad = [], fp_dp = [], fp_oth = []\<rparr>"

definition demo_tally :: mock_tally where
  "demo_tally = \<lparr>script = [0, 0, 0, 0, 0, 0, 2, 2, 2, 2], tc = []\<rparr>"

definition demo_feature :: mock_feature where
  "demo_feature = [(''S1'', 0, 0, 0, 0), (''S2'', 3, 2, 1, 1)]"

text \<open>The three dictionaries \<^verbatim>\<open>fc_fet1\<close> returns on that example.\<close>

definition demo_alt :: cnt_dict where "demo_alt = (zero_cnt demo_conf)(''S1'' \<mapsto> 4, ''S2'' \<mapsto> 3)"
definition demo_dp :: cnt_dict where "demo_dp = (zero_cnt demo_conf)(''S1'' \<mapsto> 10, ''S2'' \<mapsto> 7)"
definition demo_oth :: cnt_dict where "demo_oth = (zero_cnt demo_conf)(''S1'' \<mapsto> 0, ''S2'' \<mapsto> 1)"


definition demo_tally_fatal :: mock_tally where
  "demo_tally_fatal = \<lparr>script = [0, -2, -1], tc = []\<rparr>"

text \<open>
  A second region without SNPs, the feature machine after \<^verbatim>\<open>add_region\<close>, the three
  dictionaries of the example region counted from there, and the worker's data after
  the two regions.
\<close>

definition demo_gap :: region where
  "demo_gap = \<lparr>reg_chrom = ''chr1'', reg_start = 100, reg_end = 201, reg_name = ''gap'',
     snp_list = []\<rparr>"

definition demo_zero :: mock_feature where
  "demo_zero = [(''S1'', 0, 0, 0, 0), (''S2'', 0, 0, 0, 0)]"

definition run_alt :: cnt_dict where "run_alt = (zero_cnt demo_conf)(''S1'' \<mapsto> 4, ''S2'' \<mapsto> 0)"
definition run_dp :: cnt_dict where "run_dp = (zero_cnt demo_conf)(''S1'' \<mapsto> 10, ''S2'' \<mapsto> 0)"
definition run_oth :: cnt_dict where "run_oth = (zero_cnt demo_conf)(''S1'' \<mapsto> 0, ''S2'' \<mapsto> 0)"

definition demo_final :: thdata where
  "demo_final = \<lparr>ret = 0, nr_reg = 2, nr_ad = 1, nr_dp = 1, nr_oth = 0,
     fp_reg = ''chr1'' @ [TAB] @ ''100'' @ [TAB] @ ''200'' @ [TAB] @ ''gap'' @ [NL]
            @ ''chr1'' @ [TAB] @ ''900'' @ [TAB] @ ''1100'' @ [TAB] @ ''geneA'' @ [NL],
     fp_ad = ''2'' @ [TAB] @ ''1'' @ [TAB] @ ''4'' @ [NL],
     fp_dp = ''2'' @ [TAB] @ ''1'' @ [TAB] @ ''10'' @ [NL],
     fp_oth = []\<rparr>"

section \<open>Properties\<close>

subsection \<open>Read qualification\<close>

lemma tag_missing_iff: "tag_missing tag r \<longleftrightarrow> \<not> tag_ok tag r"
  by (cases tag) (auto simp: tag_ok_def has_tag_def)

lemma check_read_chain:
  "check_read r conf =
     (if \<not> mapq_ok r conf then -2
      else if \<not> excl_ok r conf then -3
      else if \<not> incl_ok r conf then -4
      else if \<not> orphan_ok r conf then -5
      else if \<not> tag_ok (cell_tag conf) r then -11
      else if \<not> tag_ok (umi_tag conf) r then -12
      else if \<not> len_ok r conf then -21
      else 0)"
  unfolding check_read_def tag_missing_iff
  by (simp add: mapq_ok_def excl_ok_def incl_ok_def orphan_ok_def len_ok_def truthy_int_def not_le)

text \<open>
  C3. \<^verbatim>\<open>check_read\<close> returns 0 exactly when the seven conditions of the read
  qualifier hold together; otherwise it returns the code of the first condition that
  fails, a different negative number for each (-2, -3, -4, -5, -11, -12, -21). It is a
  function of the read and the configuration alone: it has no state to change.
\<close>

theorem check_read_qualifies:
  "(check_read r conf = 0 \<longleftrightarrow>
      mapq_ok r conf \<and> excl_ok r conf \<and> incl_ok r conf \<and> orphan_ok r conf
      \<and> tag_ok (cell_tag conf) r \<and> tag_ok (umi_tag conf) r \<and> len_ok r conf)
   \<and> (check_read r conf = -2 \<longleftrightarrow> \<not> mapq_ok r conf)
   \<and> (check_read r conf = -3 \<longleftrightarrow> mapq_ok r conf \<and> \<not> excl_ok r conf)
   \<and> (check_read r conf = -4 \<longleftrightarrow> mapq_ok r conf \<and> excl_ok r conf \<and> \<not> incl_ok r conf)
   \<and> (check_read r conf = -5 \<longleftrightarrow>
        mapq_ok r conf \<and> excl_ok r conf \<and> incl_ok r conf \<and> \<not> orphan_ok r conf)
   \<and> (check_read r conf = -11 \<longleftrightarrow>
        mapq_ok r conf \<and> excl_ok r conf \<and> incl_ok r conf \<and> orphan_ok r conf
        \<and> \<not> tag_ok (cell_tag conf) r)
   \<and> (check_read r conf = -12 \<longleftrightarrow>
        mapq_ok r conf \<and> excl_ok r conf \<and> incl_ok r conf \<and> orphan_ok r conf
        \<and> tag_ok (cell_tag conf) r \<and> \<not> tag_ok (umi_tag conf) r)
   \<and> (check_read r conf = -21 \<longleftrightarrow>
        mapq_ok r conf \<and> excl_ok r conf \<and> incl_ok r conf \<and> orphan_ok r conf
        \<and> tag_ok (cell_tag conf) r \<and> tag_ok (umi_tag conf) r \<and> \<not> len_ok r conf)
   \<and> (check_read r conf < 0 \<longleftrightarrow> check_read r conf \<noteq> 0)"
  unfolding check_read_chain by simp

theorem check_read_qualifies_witness:
  "check_read demo_read demo_conf = 0
   \<and> mapq_ok demo_read demo_conf \<and> excl_ok demo_read demo_conf \<and> incl_ok demo_read demo_conf
   \<and> orphan_ok demo_read demo_conf \<and> tag_ok (cell_tag demo_conf) demo_read
   \<and> tag_ok (umi_tag demo_conf) demo_read \<and> len_ok demo_read demo_conf
   \<and> check_read (demo_read\<lparr>mapq := 5\<rparr>) demo_conf = -2
   \<and> check_read (demo_read\<lparr>flag := 1027\<rparr>) demo_conf = -3
   \<and> check_read (demo_read\<lparr>flag := 8\<rparr>) demo_conf = -4
   \<and> check_read (demo_read\<lparr>flag := 1\<rparr>) demo_conf = -5
   \<and> check_read (demo_read\<lparr>tags := [''UB'']\<rparr>) demo_conf = -11
   \<and> check_read (demo_read\<lparr>tags := [''CB'']\<rparr>) demo_conf = -12
   \<and> check_read (demo_read\<lparr>positions := [1000]\<rparr>) demo_conf = -21"
  using check_read_qualifies [of demo_read demo_conf]
  by (simp add: check_read_def demo_read_def demo_conf_def mapq_ok_def excl_ok_def incl_ok_def
      orphan_ok_def tag_ok_def len_ok_def truthy_int_def has_tag_def BAM_FPAIRED_def
      BAM_FPROPER_PAIR_def)

lemma mask_subset: "m AND m' = m \<Longrightarrow> (f::int) AND m \<noteq> 0 \<Longrightarrow> f AND m' \<noteq> 0"
  by (metis and.commute and.left_commute bit.conj_zero_left)

lemma loosened_pointwise:
  assumes "loosened conf conf'" and "check_read r conf = 0"
  shows "check_read r conf' = 0"
proof -
  from assms(2) have ok: "mapq_ok r conf" "excl_ok r conf" "incl_ok r conf" "orphan_ok r conf"
      "tag_ok (cell_tag conf) r" "tag_ok (umi_tag conf) r" "len_ok r conf"
    unfolding check_read_chain by (simp_all split: if_splits)
  from assms(1) consider
      (mapq) q where "conf' = conf\<lparr>min_mapq := q\<rparr>" "q \<le> min_mapq conf"
    | (len) l where "conf' = conf\<lparr>min_len := l\<rparr>" "l \<le> min_len conf"
    | (incl) m where "conf' = conf\<lparr>incl_flag := m\<rparr>"
        "m = 0 \<or> incl_flag conf \<noteq> 0 \<and> incl_flag conf AND m = incl_flag conf"
    | (excl) m where "conf' = conf\<lparr>excl_flag := m\<rparr>"
        "m AND excl_flag conf = m"
    unfolding loosened_def by metis
  then show ?thesis
  proof cases
    case mapq
    with ok show ?thesis unfolding check_read_chain
      by (simp add: mapq_ok_def excl_ok_def incl_ok_def orphan_ok_def len_ok_def)
  next
    case len
    with ok show ?thesis unfolding check_read_chain
      by (simp add: mapq_ok_def excl_ok_def incl_ok_def orphan_ok_def len_ok_def)
  next
    case incl
    have "incl_ok r conf'"
      using incl ok(3) mask_subset [of "incl_flag conf" m "flag r"]
      by (auto simp: incl_ok_def)
    with ok incl(1) show ?thesis unfolding check_read_chain
      by (simp add: mapq_ok_def excl_ok_def orphan_ok_def len_ok_def)
  next
    case excl
    have "excl_ok r conf'"
      using excl ok(2) mask_subset [of m "excl_flag conf" "flag r"]
      by (auto simp: excl_ok_def)
    with ok excl(1) show ?thesis unfolding check_read_chain
      by (simp add: mapq_ok_def incl_ok_def orphan_ok_def len_ok_def)
  qed
qed

text \<open>
  C8, amended. Loosening one threshold never decreases the number of qualifying reads
  of a fixed read set, where loosening is: lowering \<^verbatim>\<open>min_mapq\<close>, lowering
  \<^verbatim>\<open>min_len\<close>, disabling the inclusion mask or adding bits to a configured one,
  removing bits from the exclusion mask (or disabling it).
\<close>

theorem loosened_monotone:
  assumes "loosened conf conf'"
  shows "nr_qualified conf rs \<le> nr_qualified conf' rs"
proof (induction rs)
  case Nil
  show ?case by (simp add: nr_qualified_def)
next
  case (Cons r rs)
  with loosened_pointwise [OF assms, of r] show ?case
    by (auto simp: nr_qualified_def)
qed

theorem loosened_monotone_witness:
  "loosened demo_conf (demo_conf\<lparr>excl_flag := 1540\<rparr>)
   \<and> nr_qualified demo_conf [demo_read, demo_read\<lparr>flag := 259\<rparr>] = 1
   \<and> nr_qualified (demo_conf\<lparr>excl_flag := 1540\<rparr>) [demo_read, demo_read\<lparr>flag := 259\<rparr>] = 2"
proof -
  have l: "loosened demo_conf (demo_conf\<lparr>excl_flag := 1540\<rparr>)"
    unfolding loosened_def by (rule disjI2, rule disjI2, rule disjI2) (simp add: demo_conf_def)
  show ?thesis
    using l loosened_monotone [OF l, of "[demo_read, demo_read\<lparr>flag := 259\<rparr>]"]
    by (simp add: nr_qualified_def check_read_def demo_read_def demo_conf_def truthy_int_def
        has_tag_def BAM_FPAIRED_def BAM_FPROPER_PAIR_def)
qed

text \<open>
  Widening the exclusion mask (4 to 12) loses a read, and so does widening the
  inclusion mask from the disabled mask 0 to 4: the count is not monotone in the width
  of the masks.
\<close>

theorem widened_excl_mask_counterexample:
  "(4::int) AND 12 = 4
   \<and> nr_qualified (demo_conf\<lparr>excl_flag := 4\<rparr>) [demo_read\<lparr>flag := 11\<rparr>] = 1
   \<and> nr_qualified (demo_conf\<lparr>excl_flag := 12\<rparr>) [demo_read\<lparr>flag := 11\<rparr>] = 0
   \<and> (0::int) AND 4 = 0
   \<and> nr_qualified (demo_conf\<lparr>incl_flag := 0\<rparr>) [demo_read] = 1
   \<and> nr_qualified (demo_conf\<lparr>incl_flag := 4\<rparr>) [demo_read] = 0"
  by (simp add: nr_qualified_def check_read_def demo_read_def demo_conf_def truthy_int_def
        has_tag_def BAM_FPAIRED_def BAM_FPROPER_PAIR_def)

subsection \<open>The example run, step by step\<close>

lemma demo_conf_fields:
  "min_mapq demo_conf = 20" "excl_flag demo_conf = 1796" "incl_flag demo_conf = 3"
  "no_orphan demo_conf = True" "cell_tag demo_conf = Some ''CB''" "umi_tag demo_conf = Some ''UB''"
  "min_len demo_conf = 3" "min_count demo_conf = 10" "min_maf demo_conf = 0.2"
  "no_dup_hap demo_conf = False" "samples demo_conf = [''S1'', ''S2'']"
  "use_barcodes demo_conf = False"
  by (simp_all add: demo_conf_def)

lemma demo_read_qualifies: "check_read demo_read demo_conf = 0"
  by (simp add: check_read_def demo_read_def demo_conf_fields truthy_int_def has_tag_def
      BAM_FPAIRED_def BAM_FPROPER_PAIR_def)

lemma demo_sam_fetch: "sam_fetch demo_sam ''chr1'' (Some 1000) (Some 1000) = Some demo_itr"
  by (simp add: sam_fetch_def demo_sam_def alt_chrom_def demo_itr_def)

lemma demo_plp_reads:
  "plp_reads mock_snp_ops demo_conf 0 (it_reads demo_itr)
     \<lparr>script = [0, 0, 0, 0, 0, 0, 2, 2, 2, 2], tc = [0, 0, 0, 0, 0]\<rparr>
   = Inr (None, \<lparr>script = [], tc = [6, 0, 4, 0, 0]\<rparr>)"
  by (simp add: demo_itr_def demo_read_qualifies read_sample_def demo_conf_fields ebind_def
      py_index_def mock_snp_ops_def mock_push_read_def)

lemma demo_plp_snp:
  "plp_snp mock_snp_ops demo_conf demo_snp [demo_sam] demo_tally
     = Inr (0, \<lparr>script = [], tc = [6, 0, 4, 0, 0]\<rparr>)"
proof -
  have f: "sam_fetch demo_sam (snp_chrom demo_snp) (Some (snp_pos demo_snp)) (Some (snp_pos demo_snp))
             = Some demo_itr"
    using demo_sam_fetch by (simp add: demo_snp_def)
  have a: "add_snp mock_snp_ops demo_tally demo_snp
             = (0, \<lparr>script = [0, 0, 0, 0, 0, 0, 2, 2, 2, 2], tc = [0, 0, 0, 0, 0]\<rparr>)"
    by (simp add: mock_snp_ops_def demo_tally_def)
  have t: "it_truthy demo_itr" by (simp add: demo_itr_def)
  have g: "snp_qc [6, 0, 4, 0, 0] (base_idx mock_snp_ops \<lparr>script = [], tc = [6, 0, 4, 0, 0]\<rparr>)
             demo_snp demo_conf = Inr 0"
    by (simp add: snp_qc_def mock_snp_ops_def demo_conf_fields demo_snp_def ebind_def py_get_def
        py_index_def)
  show ?thesis
    unfolding plp_snp_def a
    by (simp add: f t demo_plp_reads) (simp add: mock_snp_ops_def g [unfolded mock_snp_ops_def, simplified] ebind_def)
qed

lemma demo_fc_fet1:
  "fc_fet1 mock_snp_ops mock_fet_ops demo_conf demo_region [demo_sam] demo_tally demo_feature
     = Inr (0, Some (demo_alt, demo_dp, demo_oth), \<lparr>script = [], tc = [6, 0, 4, 0, 0]\<rparr>,
            [(''S1'', 6, 4, 0, 0), (''S2'', 3, 2, 1, 1)])"
proof -
  have sl: "snp_list demo_region = [demo_snp]" by (simp add: demo_region_def)
  have loop: "fc_fet1_snps mock_snp_ops mock_fet_ops demo_conf [demo_sam] [demo_snp] demo_tally demo_feature
      = Inr (None, \<lparr>script = [], tc = [6, 0, 4, 0, 0]\<rparr>, [(''S1'', 6, 4, 0, 0), (''S2'', 3, 2, 1, 1)])"
    by (simp add: demo_plp_snp) (simp add: mock_fet_ops_def demo_feature_def)
  have cc: "cell_cnt mock_fet_ops [(''S1'', 6, 4, 0, 0), (''S2'', 3, 2, 1, 1)]
     = [(''S1'', mock_allele_cnt (6, 4, 0, 0)), (''S2'', mock_allele_cnt (3, 2, 1, 1))]"
    by (simp add: mock_fet_ops_def)
  have fs: "fstat mock_fet_ops [(''S1'', 6, 4, 0, 0), (''S2'', 3, 2, 1, 1)] = (0, [(''S1'', 6, 4, 0, 0), (''S2'', 3, 2, 1, 1)])"
    by (simp add: mock_fet_ops_def)
  have rc: "reg_cnts demo_conf [(''S1'', mock_allele_cnt (6, 4, 0, 0)), (''S2'', mock_allele_cnt (3, 2, 1, 1))]
     = Inr (demo_alt, demo_dp, demo_oth)"
    by (simp add: reg_cnts_def smp_cnts_def demo_conf_fields mock_allele_cnt_def ebind_def py_get_def
        demo_alt_def demo_dp_def demo_oth_def)
  show ?thesis
    unfolding fc_fet1_def sl loop by (simp add: fs cc rc ebind_def)
qed

subsection \<open>Fetching reads\<close>



subsection \<open>The counts of a region\<close>

lemma smp_cnts_Inr:
  assumes "smp_cnts conf ac = Inr (x, y, z)"
  shows "\<exists>a0 a1 ao. ac 0 = Some a0 \<and> ac 1 = Some a1 \<and> ac (-1) = Some ao \<and> z = ao
           \<and> (if no_dup_hap conf then x = a1 \<and> y = a0 + a1
               else (\<exists>a2. ac 2 = Some a2 \<and> x = a1 + a2 \<and> y = a0 + a1 + 2 * a2))"
  using assms
  by (auto simp: smp_cnts_def ebind_def py_get_def split: option.splits if_splits)

lemma reg_cnts_loop_other:
  assumes "reg_cnts_loop conf cc (a, d, ot) = Inr (a', d', ot')" and "smp \<notin> fst ` set cc"
  shows "a' smp = a smp \<and> d' smp = d smp \<and> ot' smp = ot smp"
  using assms
proof (induction cc arbitrary: a d ot)
  case Nil
  then show ?case by simp
next
  case (Cons p cc)
  obtain k ac where p: "p = (k, ac)" by (cases p)
  from Cons.prems(1) p obtain x y z where
      s: "smp_cnts conf ac = Inr (x, y, z)"
      and r: "reg_cnts_loop conf cc (a(k \<mapsto> x), d(k \<mapsto> y), ot(k \<mapsto> z)) = Inr (a', d', ot')"
    by (auto split: sum.splits)
  from Cons.prems(2) p have "smp \<noteq> k" "smp \<notin> fst ` set cc" by auto
  with Cons.IH [OF r] show ?case by simp
qed

lemma reg_cnts_loop_entry:
  assumes "reg_cnts_loop conf cc (a, d, ot) = Inr (a', d', ot')"
    and "distinct (map fst cc)" and "(smp, ac) \<in> set cc"
  shows "\<exists>x y z. smp_cnts conf ac = Inr (x, y, z)
           \<and> a' smp = Some x \<and> d' smp = Some y \<and> ot' smp = Some z"
  using assms
proof (induction cc arbitrary: a d ot)
  case Nil
  then show ?case by simp
next
  case (Cons p cc)
  obtain k kc where p: "p = (k, kc)" by (cases p)
  from Cons.prems(1) p obtain x y z where
      s: "smp_cnts conf kc = Inr (x, y, z)"
      and r: "reg_cnts_loop conf cc (a(k \<mapsto> x), d(k \<mapsto> y), ot(k \<mapsto> z)) = Inr (a', d', ot')"
    by (auto split: sum.splits)
  from Cons.prems(2) p have dist: "k \<notin> fst ` set cc" "distinct (map fst cc)" by auto
  show ?case
  proof (cases "(smp, ac) = (k, kc)")
    case True
    with reg_cnts_loop_other [OF r dist(1)] s show ?thesis by simp
  next
    case False
    with Cons.prems(3) p have "(smp, ac) \<in> set cc" by auto
    from Cons.IH [OF r dist(2) this] show ?thesis .
  qed
qed

lemma fc_fet1_Some:
  assumes "fc_fet1 sops fops conf reg sam_list sm fm = Inr (r, Some cnts, sm', fm')"
  shows "r = 0 \<and> reg_cnts conf (cell_cnt fops fm') = Inr cnts"
  using assms unfolding fc_fet1_def
  by (auto simp: ebind_def split: sum.splits option.splits prod.splits if_splits)

text \<open>
  C1. When \<^verbatim>\<open>fc_fet1\<close> returns the three dictionaries, its code is 0 and, for
  every sample of the feature machine's \<^verbatim>\<open>cell_cnt\<close> (read after \<^verbatim>\<open>stat\<close>, the keys
  of a dictionary being distinct): \<^verbatim>\<open>oth_count\<close> is the other-base count
  \<^verbatim>\<open>allele_cnt[-1]\<close>; with duplicate-haplotype counting disabled \<^verbatim>\<open>alt_count\<close> is
  the alternative count \<^verbatim>\<open>allele_cnt[1]\<close> and \<^verbatim>\<open>dp_count\<close> is reference plus
  alternative, \<^verbatim>\<open>allele_cnt[0] + allele_cnt[1]\<close>; otherwise the duplicate-haplotype
  count \<^verbatim>\<open>allele_cnt[2]\<close> is added once to \<^verbatim>\<open>alt_count\<close> and twice to
  \<^verbatim>\<open>dp_count\<close>. A configured sample the machine does not list has the three counts 0.
\<close>

theorem fc_fet1_counts:
  assumes "fc_fet1 sops fops conf reg sam_list sm fm = Inr (r, Some (alt, dp, oth), sm', fm')"
    and "distinct (map fst (cell_cnt fops fm'))"
  shows "r = 0
    \<and> (\<forall>(smp, ac) \<in> set (cell_cnt fops fm').
          \<exists>ref_sup alt_sup oth_sup.
            ac 0 = Some ref_sup \<and> ac 1 = Some alt_sup \<and> ac (-1) = Some oth_sup
            \<and> oth smp = Some oth_sup
            \<and> (if no_dup_hap conf
                then alt smp = Some alt_sup \<and> dp smp = Some (ref_sup + alt_sup)
                else (\<exists>dup. ac 2 = Some dup \<and> alt smp = Some (alt_sup + dup)
                        \<and> dp smp = Some (ref_sup + alt_sup + 2 * dup))))
    \<and> (\<forall>smp \<in> set (samples conf). smp \<notin> fst ` set (cell_cnt fops fm') \<longrightarrow>
          alt smp = Some 0 \<and> dp smp = Some 0 \<and> oth smp = Some 0)"
proof -
  from fc_fet1_Some [OF assms(1)] have r: "r = 0"
    and loop: "reg_cnts_loop conf (cell_cnt fops fm') (zero_cnt conf, zero_cnt conf, zero_cnt conf)
                 = Inr (alt, dp, oth)"
    by (simp_all add: reg_cnts_def)
  have entry: "\<exists>ref_sup alt_sup oth_sup.
            ac 0 = Some ref_sup \<and> ac 1 = Some alt_sup \<and> ac (-1) = Some oth_sup
            \<and> oth smp = Some oth_sup
            \<and> (if no_dup_hap conf
                then alt smp = Some alt_sup \<and> dp smp = Some (ref_sup + alt_sup)
                else (\<exists>dup. ac 2 = Some dup \<and> alt smp = Some (alt_sup + dup)
                        \<and> dp smp = Some (ref_sup + alt_sup + 2 * dup)))"
    if "(smp, ac) \<in> set (cell_cnt fops fm')" for smp ac
  proof -
    from reg_cnts_loop_entry [OF loop assms(2) that] obtain x y z where
      "smp_cnts conf ac = Inr (x, y, z)" "alt smp = Some x" "dp smp = Some y" "oth smp = Some z"
      by blast
    with smp_cnts_Inr [of conf ac x y z] show ?thesis by (auto split: if_splits)
  qed
  have other: "alt smp = Some 0 \<and> dp smp = Some 0 \<and> oth smp = Some 0"
    if "smp \<in> set (samples conf)" "smp \<notin> fst ` set (cell_cnt fops fm')" for smp
    using reg_cnts_loop_other [OF loop that(2)] that(1) by (simp add: zero_cnt_def)
  from r entry other show ?thesis by blast
qed

theorem fc_fet1_counts_witness:
  "fc_fet1 mock_snp_ops mock_fet_ops demo_conf demo_region [demo_sam] demo_tally demo_feature
     = Inr (0, Some (demo_alt, demo_dp, demo_oth), \<lparr>script = [], tc = [6, 0, 4, 0, 0]\<rparr>,
            [(''S1'', 6, 4, 0, 0), (''S2'', 3, 2, 1, 1)])
   \<and> cell_cnt mock_fet_ops [(''S1'', 6, 4, 0, 0), (''S2'', 3, 2, 1, 1)]
       = [(''S1'', mock_allele_cnt (6, 4, 0, 0)), (''S2'', mock_allele_cnt (3, 2, 1, 1))]
   \<and> demo_alt ''S2'' = Some (2 + 1) \<and> demo_dp ''S2'' = Some (3 + 2 + 2 * 1)
   \<and> demo_oth ''S2'' = Some 1"
proof -
  let ?fm = "[(''S1'', 6, 4, 0, 0), (''S2'', 3, 2, 1, 1)] :: mock_feature"
  have cc: "cell_cnt mock_fet_ops ?fm
      = [(''S1'', mock_allele_cnt (6, 4, 0, 0)), (''S2'', mock_allele_cnt (3, 2, 1, 1))]"
    by (simp add: mock_fet_ops_def)
  have d: "distinct (map fst (cell_cnt mock_fet_ops ?fm))"
    unfolding cc by simp
  have "\<forall>(smp, ac) \<in> set (cell_cnt mock_fet_ops ?fm).
          \<exists>ref_sup alt_sup oth_sup.
            ac 0 = Some ref_sup \<and> ac 1 = Some alt_sup \<and> ac (-1) = Some oth_sup
            \<and> demo_oth smp = Some oth_sup
            \<and> (if no_dup_hap demo_conf
                then demo_alt smp = Some alt_sup \<and> demo_dp smp = Some (ref_sup + alt_sup)
                else (\<exists>dup. ac 2 = Some dup \<and> demo_alt smp = Some (alt_sup + dup)
                        \<and> demo_dp smp = Some (ref_sup + alt_sup + 2 * dup)))"
    using fc_fet1_counts [OF demo_fc_fet1 d] by blast
  then have "demo_alt ''S2'' = Some (2 + 1) \<and> demo_dp ''S2'' = Some (3 + 2 + 2 * 1)
      \<and> demo_oth ''S2'' = Some 1"
    unfolding cc by (simp add: mock_allele_cnt_def demo_conf_fields)
  with demo_fc_fet1 cc show ?thesis by blast
qed

subsection \<open>The SNP-level QC test\<close>







lemma fc_fet1_snps_failed:
  assumes "plp_snp sops conf s sam_list sm = Inr (c, sm')" and "c < 0"
  shows "fc_fet1_snps sops fops conf sam_list (s # rest) sm fm = Inr (Some (-3), sm', fm)"
  using assms by simp


subsection \<open>The routing of errors\<close>






lemma fc_region_abort:
  assumes "snp_list reg \<noteq> []"
    and "fc_fet1 sops fops conf reg sam_list sm (add_region fops fm reg) = Inr (c, cnts, sm', fm')"
    and "c < 0"
  shows "fc_region sops fops conf sam_list reg_idx reg (th, sm, fm)
           = Inl (RuntimeError ''errcode -9'', th\<lparr>fp_reg := fp_reg th @ str_reg reg\<rparr>)"
  using assms by (simp add: fc_region_def)

lemma fc_fet1_snps_append:
  "fc_fet1_snps sops fops conf sam_list pre sm fm = Inr (None, sm1, fm1) \<Longrightarrow>
   fc_fet1_snps sops fops conf sam_list (pre @ post) sm fm
     = fc_fet1_snps sops fops conf sam_list post sm1 fm1"
proof (induction pre arbitrary: sm fm)
  case Nil
  then show ?case by simp
next
  case (Cons s pre)
  then show ?case
    by (auto split: sum.splits prod.splits if_splits)
qed


lemma fc_fet1_failed_at:
  assumes "snp_list reg = pre @ s # rest"
    and "fc_fet1_snps sops fops conf sam_list pre sm fm = Inr (None, sm1, fm1)"
    and "plp_snp sops conf s sam_list sm1 = Inr (e, sm')" and "e < 0"
  shows "fc_fet1 sops fops conf reg sam_list sm fm = Inr (-3, None, sm', fm1)"
  using assms(3,4) unfolding fc_fet1_def assms(1) fc_fet1_snps_append [OF assms(2)]
  by simp



subsection \<open>More runs of the example\<close>

lemma demo_snp_fetch:
  "sam_fetch demo_sam (snp_chrom demo_snp) (Some (snp_pos demo_snp)) (Some (snp_pos demo_snp))
     = Some demo_itr"
  using demo_sam_fetch by (simp add: demo_snp_def)

lemma demo_itr_truthy: "it_truthy demo_itr"
  by (simp add: demo_itr_def)



lemma demo_plp_reads_fatal:
  "plp_reads mock_snp_ops demo_conf 0 (it_reads demo_itr)
     \<lparr>script = [0, -2, -1], tc = [0, 0, 0, 0, 0]\<rparr>
   = Inr (Some (-5), \<lparr>script = [], tc = [1, 0, 0, 0, 0]\<rparr>)"
  by (simp add: demo_itr_def demo_read_qualifies read_sample_def demo_conf_fields ebind_def
      py_index_def mock_snp_ops_def mock_push_read_def)

lemma demo_add_snp:
  "add_snp mock_snp_ops \<lparr>script = sc, tc = t\<rparr> s = (0, \<lparr>script = sc, tc = [0, 0, 0, 0, 0]\<rparr>)"
  "stat mock_snp_ops m = (0, m)"
  "tcount mock_snp_ops m = tc m"
  by (simp_all add: mock_snp_ops_def)


lemma demo_plp_snp_fatal:
  "plp_snp mock_snp_ops demo_conf demo_snp [demo_sam] demo_tally_fatal
     = Inr (-5, \<lparr>script = [], tc = [1, 0, 0, 0, 0]\<rparr>)"
  unfolding plp_snp_def demo_tally_fatal_def demo_add_snp
  by (simp add: demo_snp_fetch demo_itr_truthy demo_plp_reads_fatal)





subsection \<open>The records written for a region\<close>

lemma sparse_rows_Nil [simp]: "sparse_rows m cnts i [] = []"
  by (simp add: sparse_rows_def)

lemma sparse_rows_Cons:
  "sparse_rows m cnts i (smp # smps) =
     (if considered cnts smp \<and> 0 < the (m smp) then [(i, the (m smp))] else [])
       @ sparse_rows m cnts (Suc i) smps"
  by (simp add: sparse_rows_def)

lemma triplets_Nil [simp]: "triplets reg_idx [] = []"
  by (simp add: triplets_def)

lemma triplets_append: "triplets reg_idx (xs @ ys) = triplets reg_idx xs @ triplets reg_idx ys"
  by (simp add: triplets_def)

lemma triplets_single: "triplets reg_idx [(k, n)] = str_cnt reg_idx k n"
  by (simp add: triplets_def str_cnt_def)

lemma emit_one_eq:
  "emit_one reg_idx i nu_ad nu_dp nu_oth (sa, sd, so, th) =
     (sa @ (if 0 < nu_ad then str_cnt reg_idx i nu_ad else []),
      sd @ (if 0 < nu_dp then str_cnt reg_idx i nu_dp else []),
      so @ (if 0 < nu_oth then str_cnt reg_idx i nu_oth else []),
      th\<lparr>nr_ad := nr_ad th + (if 0 < nu_ad then 1 else 0),
         nr_dp := nr_dp th + (if 0 < nu_dp then 1 else 0),
         nr_oth := nr_oth th + (if 0 < nu_oth then 1 else 0)\<rparr>)"
  by (simp add: emit_one_def)

lemma emit_samples_rows:
  assumes "set smps \<subseteq> dom alt" and "set smps \<subseteq> dom dp" and "set smps \<subseteq> dom oth"
  shows "emit_samples reg_idx i smps (alt, dp, oth) (sa, sd, so, th) =
     Inr (sa @ triplets reg_idx (sparse_rows alt (alt, dp, oth) i smps),
          sd @ triplets reg_idx (sparse_rows dp (alt, dp, oth) i smps),
          so @ triplets reg_idx (sparse_rows oth (alt, dp, oth) i smps),
          th\<lparr>nr_ad := nr_ad th + int (length (sparse_rows alt (alt, dp, oth) i smps)),
             nr_dp := nr_dp th + int (length (sparse_rows dp (alt, dp, oth) i smps)),
             nr_oth := nr_oth th + int (length (sparse_rows oth (alt, dp, oth) i smps))\<rparr>)"
  using assms
proof (induction smps arbitrary: i sa sd so th)
  case Nil
  show ?case by simp
next
  case (Cons smp smps)
  from Cons.prems obtain a d ot where
    v: "alt smp = Some a" "dp smp = Some d" "oth smp = Some ot"
    by (auto simp: dom_def)
  from Cons.prems have sub: "set smps \<subseteq> dom alt" "set smps \<subseteq> dom dp" "set smps \<subseteq> dom oth"
    by simp_all
  note IH = Cons.IH [OF sub]
  show ?case
  proof (cases "d + ot \<le> 0")
    case True
    then have "\<not> considered (alt, dp, oth) smp"
      by (simp add: considered_def v)
    with True show ?thesis
      by (simp add: v ebind_def py_get_def IH sparse_rows_Cons)
  next
    case False
    then have c: "considered (alt, dp, oth) smp"
      by (simp add: considered_def v)
    from False show ?thesis
      by (simp add: v ebind_def py_get_def emit_one_eq IH sparse_rows_Cons c triplets_append
          triplets_single)
  qed
qed


lemma fmt_d_not_Nil: "fmt_d n \<noteq> []"
  by (simp add: fmt_d_def dec_digits.simps [of "nat n"])

lemma triplets_empty_iff: "triplets reg_idx rows = [] \<longleftrightarrow> rows = []"
  by (cases rows) (auto simp: triplets_def)

lemma considered_positive:
  assumes "considered (alt, dp, oth) smp"
  shows "0 < the (dp smp) \<or> 0 < the (oth smp)"
  using assms by (auto simp: considered_def)

lemma sparse_rows_empty_iff:
  "sparse_rows m cnts i smps = [] \<longleftrightarrow>
     (\<forall>smp \<in> set smps. \<not> (considered cnts smp \<and> 0 < the (m smp)))"
  by (induction smps arbitrary: i) (auto simp: sparse_rows_Cons)

lemma rows_all_empty:
  assumes "sparse_rows dp (alt, dp, oth) i smps = []" and "sparse_rows oth (alt, dp, oth) i smps = []"
  shows "sparse_rows alt (alt, dp, oth) i smps = []"
  using assms considered_positive [of alt dp oth]
  unfolding sparse_rows_empty_iff by blast

lemma write_cnts_rows:
  "write_cnts (triplets reg_idx (sparse_rows alt (alt, dp, oth) i smps),
               triplets reg_idx (sparse_rows dp (alt, dp, oth) i smps),
               triplets reg_idx (sparse_rows oth (alt, dp, oth) i smps), th)
   = th\<lparr>fp_ad := fp_ad th @ triplets reg_idx (sparse_rows alt (alt, dp, oth) i smps),
        fp_dp := fp_dp th @ triplets reg_idx (sparse_rows dp (alt, dp, oth) i smps),
        fp_oth := fp_oth th @ triplets reg_idx (sparse_rows oth (alt, dp, oth) i smps)\<rparr>"
proof (cases "sparse_rows dp (alt, dp, oth) i smps = [] \<and> sparse_rows oth (alt, dp, oth) i smps = []")
  case True
  with rows_all_empty [of dp alt oth i smps] show ?thesis
    by (simp add: write_cnts_def)
next
  case False
  then show ?thesis
    by (auto simp: write_cnts_def triplets_empty_iff)
qed

lemma reg_cnts_loop_dom:
  assumes "reg_cnts_loop conf cc (a, d, ot) = Inr (a', d', ot')"
  shows "dom a \<subseteq> dom a' \<and> dom d \<subseteq> dom d' \<and> dom ot \<subseteq> dom ot'"
  using assms
proof (induction cc arbitrary: a d ot)
  case Nil
  then show ?case by simp
next
  case (Cons p cc)
  obtain k ac where p: "p = (k, ac)" by (cases p)
  from Cons.prems p obtain x y z where
      r: "reg_cnts_loop conf cc (a(k \<mapsto> x), d(k \<mapsto> y), ot(k \<mapsto> z)) = Inr (a', d', ot')"
    by (auto split: sum.splits)
  have "dom a \<subseteq> dom (a(k \<mapsto> x))" "dom d \<subseteq> dom (d(k \<mapsto> y))"
      "dom ot \<subseteq> dom (ot(k \<mapsto> z))"
    by auto
  with Cons.IH [OF r] show ?case by blast
qed

lemma reg_cnts_dom:
  assumes "reg_cnts conf cc = Inr (alt, dp, oth)"
  shows "set (samples conf) \<subseteq> dom alt \<and> set (samples conf) \<subseteq> dom dp
           \<and> set (samples conf) \<subseteq> dom oth"
proof -
  have "dom (zero_cnt conf) = set (samples conf)"
    by (auto simp: zero_cnt_def dom_def)
  with reg_cnts_loop_dom [OF assms [unfolded reg_cnts_def]] show ?thesis by simp
qed

lemma fc_fet1_None:
  assumes "fc_fet1 sops fops conf reg sam_list sm fm = Inr (r, None, sm', fm')"
  shows "r < 0"
proof -
  have early: "c = -3 \<or> c = -5"
    if "fc_fet1_snps sops fops conf sam_list snps sma fma = Inr (Some c, smb, fmb)"
    for snps sma fma c smb fmb
    using that
  proof (induction snps arbitrary: sma fma)
    case Nil
    then show ?case by simp
  next
    case (Cons s snps)
    then show ?case
      by (auto split: sum.splits prod.splits if_splits)
  qed
  from assms show ?thesis
    unfolding fc_fet1_def
    by (auto simp: ebind_def split: sum.splits option.splits prod.splits if_splits dest: early)
qed

lemma fc_region_emits:
  assumes "snp_list reg \<noteq> []"
    and "fc_fet1 sops fops conf reg sam_list sm (add_region fops fm reg)
           = Inr (r, Some (alt, dp, oth), sm', fm')"
  shows "fc_region sops fops conf sam_list reg_idx reg (th, sm, fm)
           = Inr (region_out reg_idx reg (samples conf) (alt, dp, oth) th, sm', fm')"
proof -
  from fc_fet1_Some [OF assms(2)] have r: "r = 0"
    and rc: "reg_cnts conf (cell_cnt fops fm') = Inr (alt, dp, oth)"
    by simp_all
  from reg_cnts_dom [OF rc] have dom: "set (samples conf) \<subseteq> dom alt"
      "set (samples conf) \<subseteq> dom dp" "set (samples conf) \<subseteq> dom oth"
    by simp_all
  show ?thesis
    using assms r
    by (simp add: fc_region_def emit_samples_rows [OF dom] write_cnts_rows region_out_def)
qed

lemma fc_region_cases:
  "(\<exists>e. fc_region sops fops conf sam_list reg_idx reg (th, sm, fm)
          = Inl (e, th\<lparr>fp_reg := fp_reg th @ str_reg reg\<rparr>))
   \<or> (snp_list reg = []
       \<and> fc_region sops fops conf sam_list reg_idx reg (th, sm, fm)
           = Inr (th\<lparr>fp_reg := fp_reg th @ str_reg reg\<rparr>, sm, add_region fops fm reg))
   \<or> (\<exists>cnts sm' fm'. snp_list reg \<noteq> []
       \<and> fc_fet1 sops fops conf reg sam_list sm (add_region fops fm reg)
           = Inr (0, Some cnts, sm', fm')
       \<and> fc_region sops fops conf sam_list reg_idx reg (th, sm, fm)
           = Inr (region_out reg_idx reg (samples conf) cnts th, sm', fm'))"
proof (cases "snp_list reg = []")
  case True
  then show ?thesis by (simp add: fc_region_def)
next
  case False
  show ?thesis
  proof (cases "fc_fet1 sops fops conf reg sam_list sm (add_region fops fm reg)")
    case (Inl e)
    with False show ?thesis by (simp add: fc_region_def)
  next
    case (Inr res)
    obtain r cnts sm' fm' where res: "res = (r, cnts, sm', fm')" by (cases res)
    show ?thesis
    proof (cases cnts)
      case None
      with Inr res fc_fet1_None [of sops fops conf reg sam_list sm "add_region fops fm reg" r sm' fm']
      have "r < 0" by simp
      with False Inr res show ?thesis by (simp add: fc_region_def)
    next
      case (Some c)
      obtain alt dp oth where c: "c = (alt, dp, oth)" by (cases c)
      from Inr res Some c have f: "fc_fet1 sops fops conf reg sam_list sm (add_region fops fm reg)
           = Inr (r, Some (alt, dp, oth), sm', fm')" by simp
      from fc_fet1_Some [OF f] have r: "r = 0" by simp
      have "fc_region sops fops conf sam_list reg_idx reg (th, sm, fm)
              = Inr (region_out reg_idx reg (samples conf) c th, sm', fm')"
        using fc_region_emits [OF False f] c by simp
      moreover have "fc_fet1 sops fops conf reg sam_list sm (add_region fops fm reg)
              = Inr (0, Some c, sm', fm')"
        using f r c by simp
      ultimately show ?thesis
        using False by (intro disjI2 exI [of _ c] exI [of _ sm'] exI [of _ fm'] conjI)
    qed
  qed
qed

lemma sparse_rows_mem:
  "(k, n) \<in> set (sparse_rows m cnts i smps) \<longleftrightarrow>
     i \<le> k \<and> k < i + length smps \<and> considered cnts (smps ! (k - i))
     \<and> n = the (m (smps ! (k - i))) \<and> 0 < n"
  by (auto simp: sparse_rows_def in_set_enumerate_eq)

lemma region_out_files:
  "fp_reg (region_out reg_idx reg smps (alt, dp, oth) th) = fp_reg th @ str_reg reg"
  "fp_ad (region_out reg_idx reg smps (alt, dp, oth) th)
     = fp_ad th @ triplets reg_idx (sparse_rows alt (alt, dp, oth) 0 smps)"
  "fp_dp (region_out reg_idx reg smps (alt, dp, oth) th)
     = fp_dp th @ triplets reg_idx (sparse_rows dp (alt, dp, oth) 0 smps)"
  "fp_oth (region_out reg_idx reg smps (alt, dp, oth) th)
     = fp_oth th @ triplets reg_idx (sparse_rows oth (alt, dp, oth) 0 smps)"
  by (simp_all add: region_out_def)

lemma region_out_counters:
  "nr_ad (region_out reg_idx reg smps (alt, dp, oth) th)
     = nr_ad th + int (length (sparse_rows alt (alt, dp, oth) 0 smps))"
  "nr_dp (region_out reg_idx reg smps (alt, dp, oth) th)
     = nr_dp th + int (length (sparse_rows dp (alt, dp, oth) 0 smps))"
  "nr_oth (region_out reg_idx reg smps (alt, dp, oth) th)
     = nr_oth th + int (length (sparse_rows oth (alt, dp, oth) 0 smps))"
  by (simp_all add: region_out_def)



text \<open>
  C5. A region is written to the three count files as a whole or not at all. When
  \<^verbatim>\<open>fc_features\<close> stops in a region with an exception, the three count files are
  as they were before the region. When the region is done, either it had no SNP and the
  three files are untouched, or each of the three files has received all the rows of
  its matrix for the region (possibly none). Failures of the file writes themselves are
  not part of the embedding.
\<close>

theorem region_atomic:
  "(fc_region sops fops conf sam_list reg_idx reg (th, sm, fm) = Inl (e, th') \<longrightarrow>
      fp_ad th' = fp_ad th \<and> fp_dp th' = fp_dp th \<and> fp_oth th' = fp_oth th)
   \<and> (fc_region sops fops conf sam_list reg_idx reg (th, sm, fm) = Inr (th', sm', fm') \<longrightarrow>
      (snp_list reg = [] \<and> fp_ad th' = fp_ad th \<and> fp_dp th' = fp_dp th
         \<and> fp_oth th' = fp_oth th)
      \<or> (\<exists>alt dp oth.
            fc_fet1 sops fops conf reg sam_list sm (add_region fops fm reg)
              = Inr (0, Some (alt, dp, oth), sm', fm')
            \<and> fp_ad th' = fp_ad th @ triplets reg_idx (sparse_rows alt (alt, dp, oth) 0 (samples conf))
            \<and> fp_dp th' = fp_dp th @ triplets reg_idx (sparse_rows dp (alt, dp, oth) 0 (samples conf))
            \<and> fp_oth th' = fp_oth th
                 @ triplets reg_idx (sparse_rows oth (alt, dp, oth) 0 (samples conf))))"
proof -
  from fc_region_cases [of sops fops conf sam_list reg_idx reg th sm fm]
  consider
      (abort) x where "fc_region sops fops conf sam_list reg_idx reg (th, sm, fm)
          = Inl (x, th\<lparr>fp_reg := fp_reg th @ str_reg reg\<rparr>)"
    | (empty) "snp_list reg = []"
        "fc_region sops fops conf sam_list reg_idx reg (th, sm, fm)
           = Inr (th\<lparr>fp_reg := fp_reg th @ str_reg reg\<rparr>, sm, add_region fops fm reg)"
    | (counts) cnts sma fma where
        "fc_fet1 sops fops conf reg sam_list sm (add_region fops fm reg)
           = Inr (0, Some cnts, sma, fma)"
        "fc_region sops fops conf sam_list reg_idx reg (th, sm, fm)
           = Inr (region_out reg_idx reg (samples conf) cnts th, sma, fma)"
    by blast
  then show ?thesis
  proof cases
    case abort
    then show ?thesis by auto
  next
    case empty
    then show ?thesis by auto
  next
    case counts
    obtain alt dp oth where c: "cnts = (alt, dp, oth)" by (cases cnts)
    show ?thesis
      using counts unfolding c by (auto simp: region_out_files)
  qed
qed

lemma fc_region_fp_reg:
  "fc_region sops fops conf sam_list reg_idx reg (th, sm, fm) = Inl (e, th') \<Longrightarrow>
     fp_reg th' = fp_reg th @ str_reg reg"
  "fc_region sops fops conf sam_list reg_idx reg (th, sm, fm) = Inr (th', sm', fm') \<Longrightarrow>
     fp_reg th' = fp_reg th @ str_reg reg"
  using fc_region_cases [of sops fops conf sam_list reg_idx reg th sm fm]
  by (auto simp: region_out_def split: prod.splits)

lemma fc_regions_fp_reg:
  "fc_regions sops fops conf sam_list i regs (th, sm, fm) = Inr (th', sm', fm') \<Longrightarrow>
     fp_reg th' = fp_reg th @ concat (map str_reg regs)"
proof (induction regs arbitrary: i th sm fm)
  case Nil
  then show ?case by simp
next
  case (Cons reg regs)
  from Cons.prems obtain tha sma fma where
      a: "fc_region sops fops conf sam_list i reg (th, sm, fm) = Inr (tha, sma, fma)"
      and b: "fc_regions sops fops conf sam_list (Suc i) regs (tha, sma, fma) = Inr (th', sm', fm')"
    by (auto split: sum.splits)
  from Cons.IH [OF b] fc_region_fp_reg(2) [OF a] show ?case by simp
qed

lemma fc_regions_fp_reg_abort:
  "fc_regions sops fops conf sam_list i regs (th, sm, fm) = Inl (e, th') \<Longrightarrow>
     \<exists>k < length regs. fp_reg th' = fp_reg th @ concat (map str_reg (take (Suc k) regs))"
proof (induction regs arbitrary: i th sm fm)
  case Nil
  then show ?case by simp
next
  case (Cons reg regs)
  show ?case
  proof (cases "fc_region sops fops conf sam_list i reg (th, sm, fm)")
    case (Inl x)
    with Cons.prems have "fc_region sops fops conf sam_list i reg (th, sm, fm) = Inl (e, th')"
      by simp
    from fc_region_fp_reg(1) [OF this] have "fp_reg th' = fp_reg th @ str_reg reg" .
    then have "fp_reg th' = fp_reg th @ concat (map str_reg (take (Suc 0) (reg # regs)))"
      by simp
    then show ?thesis by (intro exI [of _ 0]) simp
  next
    case (Inr st)
    obtain tha sma fma where st: "st = (tha, sma, fma)" by (cases st)
    from Cons.prems Inr st
    have b: "fc_regions sops fops conf sam_list (Suc i) regs (tha, sma, fma) = Inl (e, th')"
      by simp
    from Cons.IH [OF b] obtain k where k: "k < length regs"
        "fp_reg th' = fp_reg tha @ concat (map str_reg (take (Suc k) regs))"
      by blast
    from Inr st have "fp_reg tha = fp_reg th @ str_reg reg"
      using fc_region_fp_reg(2) [of sops fops conf sam_list i reg th sm fm tha sma fma] by simp
    with k have "fp_reg th' = fp_reg th @ concat (map str_reg (take (Suc (Suc k)) (reg # regs)))"
      by simp
    with k(1) show ?thesis by (intro exI [of _ "Suc k"]) simp
  qed
qed

text \<open>
  C7. When \<^verbatim>\<open>fc_features\<close> returns, the region file holds one line for every
  region of the list, with or without SNPs, in the order of the list; the line is
  chromosome, start, end minus one and name, separated by tabs. When it stops with an
  exception, the region file holds the lines of the regions up to and including the one
  it stopped in.
\<close>

theorem region_lines:
  "(fc_features sops fops conf sam_list reg_list th sm fm = Inr th' \<longrightarrow>
      fp_reg th' = concat (map str_reg reg_list))
   \<and> (fc_features sops fops conf sam_list reg_list th sm fm = Inl (e, th') \<longrightarrow>
      (\<exists>k < length reg_list. fp_reg th' = concat (map str_reg (take (Suc k) reg_list))))
   \<and> str_reg reg = reg_chrom reg @ [TAB] @ fmt_d (reg_start reg) @ [TAB]
        @ fmt_d (reg_end reg - 1) @ [TAB] @ reg_name reg @ [NL]"
proof -
  let ?th0 = "th\<lparr>ret := -1, fp_reg := [], fp_ad := [], fp_dp := [], fp_oth := []\<rparr>"
  have a: "fp_reg th' = concat (map str_reg reg_list)"
    if "fc_features sops fops conf sam_list reg_list th sm fm = Inr th'"
  proof -
    from that obtain tha sma fma where
      "fc_regions sops fops conf sam_list 0 reg_list (?th0, sm, fm) = Inr (tha, sma, fma)"
      "th' = tha\<lparr>nr_reg := int (length reg_list), ret := 0\<rparr>"
      by (auto simp: fc_features_def split: sum.splits)
    with fc_regions_fp_reg [of sops fops conf sam_list 0 reg_list ?th0 sm fm tha sma fma]
    show ?thesis by simp
  qed
  have b: "\<exists>k < length reg_list. fp_reg th' = concat (map str_reg (take (Suc k) reg_list))"
    if "fc_features sops fops conf sam_list reg_list th sm fm = Inl (e, th')"
  proof -
    from that have "fc_regions sops fops conf sam_list 0 reg_list (?th0, sm, fm) = Inl (e, th')"
      by (auto simp: fc_features_def split: sum.splits)
    from fc_regions_fp_reg_abort [OF this] show ?thesis by simp
  qed
  from a b show ?thesis by (simp add: str_reg_def)
qed

subsection \<open>Counts and counters\<close>

lemma smp_cnts_le:
  assumes "smp_cnts conf ac = Inr (x, y, z)" and "\<forall>k v. ac k = Some v \<longrightarrow> 0 \<le> v"
  shows "x \<le> y"
proof -
  from smp_cnts_Inr [OF assms(1)] obtain a0 a1 ao where
      v: "ac 0 = Some a0" "ac 1 = Some a1"
      and c: "if no_dup_hap conf then x = a1 \<and> y = a0 + a1
              else (\<exists>a2. ac 2 = Some a2 \<and> x = a1 + a2 \<and> y = a0 + a1 + 2 * a2)"
    by blast
  from assms(2) v have n: "0 \<le> a0" by blast
  show ?thesis
  proof (cases "no_dup_hap conf")
    case True
    with c n show ?thesis by simp
  next
    case False
    with c obtain a2 where a2: "ac 2 = Some a2" "x = a1 + a2" "y = a0 + a1 + 2 * a2" by auto
    from assms(2) a2(1) have "0 \<le> a2" by blast
    with n a2 show ?thesis by simp
  qed
qed

lemma reg_cnts_loop_le:
  assumes "reg_cnts_loop conf cc (a, d, ot) = Inr (a', d', ot')"
    and "\<forall>(smp, ac) \<in> set cc. \<forall>k v. ac k = Some v \<longrightarrow> 0 \<le> v"
    and "\<forall>smp x y. a smp = Some x \<and> d smp = Some y \<longrightarrow> x \<le> y"
  shows "\<forall>smp x y. a' smp = Some x \<and> d' smp = Some y \<longrightarrow> x \<le> y"
  using assms
proof (induction cc arbitrary: a d ot)
  case Nil
  then show ?case by simp
next
  case (Cons p cc)
  obtain k ac where p: "p = (k, ac)" by (cases p)
  from Cons.prems(1) p obtain x y z where
      s: "smp_cnts conf ac = Inr (x, y, z)"
      and r: "reg_cnts_loop conf cc (a(k \<mapsto> x), d(k \<mapsto> y), ot(k \<mapsto> z)) = Inr (a', d', ot')"
    by (auto split: sum.splits)
  from Cons.prems(2) p have nn: "\<forall>k v. ac k = Some v \<longrightarrow> 0 \<le> v"
      and rest: "\<forall>(smp, ac) \<in> set cc. \<forall>k v. ac k = Some v \<longrightarrow> 0 \<le> v"
    by auto
  from smp_cnts_le [OF s nn] Cons.prems(3)
  have inv: "\<forall>smp u v. (a(k \<mapsto> x)) smp = Some u \<and> (d(k \<mapsto> y)) smp = Some v \<longrightarrow> u \<le> v"
    by auto
  from Cons.IH [OF r rest inv] show ?case .
qed

lemma rows_ad_in_dp:
  assumes "\<forall>smp \<in> set smps. the (alt smp) \<le> the (dp smp)"
  shows "fst ` set (sparse_rows alt (alt, dp, oth) i smps)
           \<subseteq> fst ` set (sparse_rows dp (alt, dp, oth) i smps)"
proof
  fix k assume "k \<in> fst ` set (sparse_rows alt (alt, dp, oth) i smps)"
  then obtain n where "(k, n) \<in> set (sparse_rows alt (alt, dp, oth) i smps)" by auto
  then have k: "i \<le> k" "k < i + length smps" "considered (alt, dp, oth) (smps ! (k - i))"
      "0 < the (alt (smps ! (k - i)))"
    unfolding sparse_rows_mem by auto
  from k(1,2) have "smps ! (k - i) \<in> set smps" by simp
  with assms k(4) have "0 < the (dp (smps ! (k - i)))" by force
  with k have "(k, the (dp (smps ! (k - i)))) \<in> set (sparse_rows dp (alt, dp, oth) i smps)"
    unfolding sparse_rows_mem by simp
  then show "k \<in> fst ` set (sparse_rows dp (alt, dp, oth) i smps)" by force
qed

lemma digit_char_not_NL: "k < 10 \<Longrightarrow> digit_char k \<noteq> NL"
proof -
  assume "k < 10"
  then have "digit_char k \<in> set ''0123456789''"
    unfolding digit_char_def by (intro nth_mem) simp
  then show ?thesis by (auto simp: NL_def)
qed

lemma dec_digits_no_NL: "NL \<notin> set (dec_digits n)"
proof (induction n rule: dec_digits.induct)
  case (1 n)
  show ?case
  proof (cases "n < 10")
    case True
    then show ?thesis
      using digit_char_not_NL [of n] by (simp add: dec_digits.simps [of n])
  next
    case False
    with "1" have "NL \<notin> set (dec_digits (n div 10))" by simp
    with False show ?thesis
      using digit_char_not_NL [of "n mod 10"] by (simp add: dec_digits.simps [of n])
  qed
qed

lemma fmt_d_no_NL: "count_list (fmt_d n) NL = 0"
proof -
  have "\<And>m. count_list (dec_digits m) NL = 0"
    using dec_digits_no_NL by (simp add: count_list_0_iff)
  moreover have "CHR ''-'' \<noteq> NL" by (simp add: NL_def)
  ultimately show ?thesis by (simp add: fmt_d_def)
qed

lemma triplets_lines: "count_list (triplets reg_idx rows) NL = length rows"
proof (induction rows)
  case Nil
  then show ?case by simp
next
  case (Cons p rows)
  obtain k n where p: "p = (k, n)" by (cases p)
  have "TAB \<noteq> NL" by (simp add: TAB_def NL_def)
  then have "count_list (triplets reg_idx [(k, n)]) NL = 1"
    by (simp add: triplets_def fmt_d_no_NL)
  with Cons.IH p triplets_append [of reg_idx "[(k, n)]" rows] show ?case
    by simp
qed


lemma fc_region_counted:
  assumes "fc_region sops fops conf sam_list reg_idx reg (th, sm, fm) = Inr (th', sm', fm')
           \<or> fc_region sops fops conf sam_list reg_idx reg (th, sm, fm) = Inl (e, th')"
  shows "nr_ad th' - int (count_list (fp_ad th') NL) = nr_ad th - int (count_list (fp_ad th) NL)
    \<and> nr_dp th' - int (count_list (fp_dp th') NL) = nr_dp th - int (count_list (fp_dp th) NL)
    \<and> nr_oth th' - int (count_list (fp_oth th') NL) = nr_oth th - int (count_list (fp_oth th) NL)"
proof -
  from fc_region_cases [of sops fops conf sam_list reg_idx reg th sm fm]
  consider
      (abort) x where "fc_region sops fops conf sam_list reg_idx reg (th, sm, fm)
          = Inl (x, th\<lparr>fp_reg := fp_reg th @ str_reg reg\<rparr>)"
    | (empty) "fc_region sops fops conf sam_list reg_idx reg (th, sm, fm)
           = Inr (th\<lparr>fp_reg := fp_reg th @ str_reg reg\<rparr>, sm, add_region fops fm reg)"
    | (counts) cnts sma fma where
        "fc_region sops fops conf sam_list reg_idx reg (th, sm, fm)
           = Inr (region_out reg_idx reg (samples conf) cnts th, sma, fma)"
    by blast
  then show ?thesis
  proof cases
    case abort
    with assms show ?thesis by auto
  next
    case empty
    with assms show ?thesis by auto
  next
    case counts
    obtain alt dp oth where c: "cnts = (alt, dp, oth)" by (cases cnts)
    from counts assms have "th' = region_out reg_idx reg (samples conf) (alt, dp, oth) th"
      unfolding c by auto
    then show ?thesis
      by (simp add: region_out_files region_out_counters triplets_lines)
  qed
qed

lemma fc_regions_counted:
  assumes "fc_regions sops fops conf sam_list i regs (th, sm, fm) = Inr (th', sm', fm')
           \<or> fc_regions sops fops conf sam_list i regs (th, sm, fm) = Inl (e, th')"
  shows "nr_ad th' - int (count_list (fp_ad th') NL) = nr_ad th - int (count_list (fp_ad th) NL)
    \<and> nr_dp th' - int (count_list (fp_dp th') NL) = nr_dp th - int (count_list (fp_dp th) NL)
    \<and> nr_oth th' - int (count_list (fp_oth th') NL) = nr_oth th - int (count_list (fp_oth th) NL)"
  using assms
proof (induction regs arbitrary: i th sm fm)
  case Nil
  then show ?case by simp
next
  case (Cons reg regs)
  show ?case
  proof (cases "fc_region sops fops conf sam_list i reg (th, sm, fm)")
    case (Inl x)
    with Cons.prems have "fc_region sops fops conf sam_list i reg (th, sm, fm) = Inl (e, th')"
      by simp
    then show ?thesis
      using fc_region_counted [of sops fops conf sam_list i reg th sm fm th' sm' fm' e] by blast
  next
    case (Inr st)
    obtain tha sma fma where st: "st = (tha, sma, fma)" by (cases st)
    from Inr st have "fc_region sops fops conf sam_list i reg (th, sm, fm) = Inr (tha, sma, fma)"
      by simp
    then have a: "nr_ad tha - int (count_list (fp_ad tha) NL) = nr_ad th - int (count_list (fp_ad th) NL)
      \<and> nr_dp tha - int (count_list (fp_dp tha) NL) = nr_dp th - int (count_list (fp_dp th) NL)
      \<and> nr_oth tha - int (count_list (fp_oth tha) NL) = nr_oth th - int (count_list (fp_oth th) NL)"
      using fc_region_counted [of sops fops conf sam_list i reg th sm fm tha sma fma e] by blast
    from Cons.prems Inr st
    have "fc_regions sops fops conf sam_list (Suc i) regs (tha, sma, fma) = Inr (th', sm', fm')
           \<or> fc_regions sops fops conf sam_list (Suc i) regs (tha, sma, fma) = Inl (e, th')"
      by simp
    from Cons.IH [OF this] a show ?thesis by simp
  qed
qed

text \<open>
  C10. When every counter of the feature machine is non-negative, the counts
  \<^verbatim>\<open>fc_fet1\<close> returns have \<^verbatim>\<open>alt_count\<close> at most \<^verbatim>\<open>dp_count\<close> for every sample, with
  and without duplicate-haplotype counting; so every sample with a row of AD for the
  region has a row of DP. Whether \<^verbatim>\<open>fc_features\<close> returns or stops with an exception,
  each of the counters \<^verbatim>\<open>nr_ad\<close>, \<^verbatim>\<open>nr_dp\<close>, \<^verbatim>\<open>nr_oth\<close> has advanced by exactly
  the number of lines in its file: no record is counted and then held back by the test
  before the writes.
\<close>

theorem counts_consistent:
  "(fc_fet1 sops fops conf reg sam_list sm fm = Inr (r, Some (alt, dp, oth), sm', fm')
      \<and> (\<forall>(smp, ac) \<in> set (cell_cnt fops fm'). \<forall>k v. ac k = Some v \<longrightarrow> 0 \<le> v) \<longrightarrow>
      (\<forall>smp a d. alt smp = Some a \<and> dp smp = Some d \<longrightarrow> a \<le> d)
      \<and> fst ` set (sparse_rows alt (alt, dp, oth) 0 (samples conf))
            \<subseteq> fst ` set (sparse_rows dp (alt, dp, oth) 0 (samples conf)))
   \<and> (fc_features sops fops conf sam_list reg_list th sma fma = Inr th'
        \<or> fc_features sops fops conf sam_list reg_list th sma fma = Inl (e, th') \<longrightarrow>
      nr_ad th' = nr_ad th + int (count_list (fp_ad th') NL)
      \<and> nr_dp th' = nr_dp th + int (count_list (fp_dp th') NL)
      \<and> nr_oth th' = nr_oth th + int (count_list (fp_oth th') NL))"
proof -
  have a: "(\<forall>smp a d. alt smp = Some a \<and> dp smp = Some d \<longrightarrow> a \<le> d)
      \<and> fst ` set (sparse_rows alt (alt, dp, oth) 0 (samples conf))
            \<subseteq> fst ` set (sparse_rows dp (alt, dp, oth) 0 (samples conf))"
    if f: "fc_fet1 sops fops conf reg sam_list sm fm = Inr (r, Some (alt, dp, oth), sm', fm')"
      and nn: "\<forall>(smp, ac) \<in> set (cell_cnt fops fm'). \<forall>k v. ac k = Some v \<longrightarrow> 0 \<le> v"
  proof -
    from fc_fet1_Some [OF f] have rc: "reg_cnts conf (cell_cnt fops fm') = Inr (alt, dp, oth)"
      by simp
    have z: "\<forall>smp x y. zero_cnt conf smp = Some x \<and> zero_cnt conf smp = Some y \<longrightarrow> x \<le> y"
      by auto
    from reg_cnts_loop_le [OF rc [unfolded reg_cnts_def] nn z]
    have le: "\<forall>smp a d. alt smp = Some a \<and> dp smp = Some d \<longrightarrow> a \<le> d" .
    from reg_cnts_dom [OF rc] have dom: "set (samples conf) \<subseteq> dom alt" "set (samples conf) \<subseteq> dom dp"
      by simp_all
    have "\<forall>smp \<in> set (samples conf). the (alt smp) \<le> the (dp smp)"
    proof
      fix smp assume "smp \<in> set (samples conf)"
      with dom have "smp \<in> dom alt" "smp \<in> dom dp" by blast+
      then obtain x y where "alt smp = Some x" "dp smp = Some y" by blast
      with le show "the (alt smp) \<le> the (dp smp)" by auto
    qed
    from rows_ad_in_dp [OF this] le show ?thesis by blast
  qed
  have b: "nr_ad th' = nr_ad th + int (count_list (fp_ad th') NL)
      \<and> nr_dp th' = nr_dp th + int (count_list (fp_dp th') NL)
      \<and> nr_oth th' = nr_oth th + int (count_list (fp_oth th') NL)"
    if run: "fc_features sops fops conf sam_list reg_list th sma fma = Inr th'
        \<or> fc_features sops fops conf sam_list reg_list th sma fma = Inl (e, th')"
  proof -
    let ?th0 = "th\<lparr>ret := -1, fp_reg := [], fp_ad := [], fp_dp := [], fp_oth := []\<rparr>"
    from run obtain thb where
      loop: "(\<exists>smb fmb. fc_regions sops fops conf sam_list 0 reg_list (?th0, sma, fma)
                  = Inr (thb, smb, fmb))
             \<or> fc_regions sops fops conf sam_list 0 reg_list (?th0, sma, fma) = Inl (e, thb)"
      and same: "nr_ad th' = nr_ad thb" "nr_dp th' = nr_dp thb" "nr_oth th' = nr_oth thb"
        "fp_ad th' = fp_ad thb" "fp_dp th' = fp_dp thb" "fp_oth th' = fp_oth thb"
      by (auto simp: fc_features_def split: sum.splits)
    from loop fc_regions_counted [of sops fops conf sam_list 0 reg_list ?th0 sma fma thb _ _ e]
    have "nr_ad thb - int (count_list (fp_ad thb) NL) = nr_ad th
      \<and> nr_dp thb - int (count_list (fp_dp thb) NL) = nr_dp th
      \<and> nr_oth thb - int (count_list (fp_oth thb) NL) = nr_oth th"
      by auto
    with same show ?thesis by simp
  qed
  from a b show ?thesis by blast
qed

subsection \<open>The worker on two regions\<close>

lemma demo_add_region:
  "add_region mock_fet_ops demo_feature reg = demo_zero"
  "add_region mock_fet_ops demo_zero reg = demo_zero"
  by (simp_all add: mock_fet_ops_def demo_feature_def demo_zero_def)

lemma demo_fc_fet1_zero:
  "fc_fet1 mock_snp_ops mock_fet_ops demo_conf demo_region [demo_sam] demo_tally demo_zero
     = Inr (0, Some (run_alt, run_dp, run_oth), \<lparr>script = [], tc = [6, 0, 4, 0, 0]\<rparr>,
            [(''S1'', 6, 4, 0, 0), (''S2'', 0, 0, 0, 0)])"
proof -
  let ?fm = "[(''S1'', 6, 4, 0, 0), (''S2'', 0, 0, 0, 0)] :: mock_feature"
  have sl: "snp_list demo_region = [demo_snp]" by (simp add: demo_region_def)
  have loop: "fc_fet1_snps mock_snp_ops mock_fet_ops demo_conf [demo_sam] [demo_snp] demo_tally demo_zero
      = Inr (None, \<lparr>script = [], tc = [6, 0, 4, 0, 0]\<rparr>, ?fm)"
    by (simp add: demo_plp_snp) (simp add: mock_fet_ops_def demo_zero_def)
  have cc: "cell_cnt mock_fet_ops ?fm
     = [(''S1'', mock_allele_cnt (6, 4, 0, 0)), (''S2'', mock_allele_cnt (0, 0, 0, 0))]"
    by (simp add: mock_fet_ops_def)
  have fs: "fstat mock_fet_ops ?fm = (0, ?fm)"
    by (simp add: mock_fet_ops_def)
  have rc: "reg_cnts demo_conf [(''S1'', mock_allele_cnt (6, 4, 0, 0)), (''S2'', mock_allele_cnt (0, 0, 0, 0))]
     = Inr (run_alt, run_dp, run_oth)"
    by (simp add: reg_cnts_def smp_cnts_def demo_conf_fields mock_allele_cnt_def ebind_def py_get_def
        run_alt_def run_dp_def run_oth_def)
  show ?thesis
    unfolding fc_fet1_def sl loop by (simp add: fs cc rc ebind_def)
qed

lemma run_values:
  "run_alt ''S1'' = Some 4" "run_alt ''S2'' = Some 0"
  "run_dp ''S1'' = Some 10" "run_dp ''S2'' = Some 0"
  "run_oth ''S1'' = Some 0" "run_oth ''S2'' = Some 0"
  by (simp_all add: run_alt_def run_dp_def run_oth_def)

lemma demo_rows:
  "sparse_rows run_alt (run_alt, run_dp, run_oth) 0 (samples demo_conf) = [(0, 4)]"
  "sparse_rows run_dp (run_alt, run_dp, run_oth) 0 (samples demo_conf) = [(0, 10)]"
  "sparse_rows run_oth (run_alt, run_dp, run_oth) 0 (samples demo_conf) = []"
  by (simp_all add: demo_conf_fields sparse_rows_Cons considered_def run_values)

lemma demo_fmt:
  "fmt_d 1 = ''1''" "fmt_d 2 = ''2''" "fmt_d 4 = ''4''" "fmt_d 10 = ''10''"
  "fmt_d 100 = ''100''" "fmt_d 200 = ''200''" "fmt_d 900 = ''900''" "fmt_d 1100 = ''1100''"
  by (simp_all add: fmt_d_def dec_digits.simps digit_char_def)

lemma demo_lines:
  "str_reg demo_gap = ''chr1'' @ [TAB] @ ''100'' @ [TAB] @ ''200'' @ [TAB] @ ''gap'' @ [NL]"
  "str_reg demo_region = ''chr1'' @ [TAB] @ ''900'' @ [TAB] @ ''1100'' @ [TAB] @ ''geneA'' @ [NL]"
  by (simp_all add: str_reg_def demo_gap_def demo_region_def demo_fmt)

lemma demo_triplets:
  "triplets (Suc 0) [(0, 4)] = ''2'' @ [TAB] @ ''1'' @ [TAB] @ ''4'' @ [NL]"
  "triplets (Suc 0) [(0, 10)] = ''2'' @ [TAB] @ ''1'' @ [TAB] @ ''10'' @ [NL]"
  by (simp_all add: triplets_single str_cnt_def demo_fmt)

lemma demo_region_ne: "snp_list demo_region \<noteq> []"
  by (simp add: demo_region_def)



lemma demo_fc_region:
  "fc_region mock_snp_ops mock_fet_ops demo_conf [demo_sam] reg_idx demo_region
     (th, demo_tally, demo_zero)
   = Inr (region_out reg_idx demo_region (samples demo_conf) (run_alt, run_dp, run_oth) th,
          \<lparr>script = [], tc = [6, 0, 4, 0, 0]\<rparr>, [(''S1'', 6, 4, 0, 0), (''S2'', 0, 0, 0, 0)])"
proof -
  have f: "fc_fet1 mock_snp_ops mock_fet_ops demo_conf demo_region [demo_sam] demo_tally
             (add_region mock_fet_ops demo_zero demo_region)
     = Inr (0, Some (run_alt, run_dp, run_oth), \<lparr>script = [], tc = [6, 0, 4, 0, 0]\<rparr>,
            [(''S1'', 6, 4, 0, 0), (''S2'', 0, 0, 0, 0)])"
    by (simp add: demo_add_region demo_fc_fet1_zero)
  from fc_region_emits [OF demo_region_ne f] show ?thesis .
qed

lemma demo_fc_region_gap:
  "fc_region mock_snp_ops mock_fet_ops demo_conf [demo_sam] reg_idx demo_gap (th, m, demo_feature)
     = Inr (th\<lparr>fp_reg := fp_reg th @ str_reg demo_gap\<rparr>, m, demo_zero)"
  "fc_region mock_snp_ops mock_fet_ops demo_conf [demo_sam] reg_idx demo_gap (th, m, demo_zero)
     = Inr (th\<lparr>fp_reg := fp_reg th @ str_reg demo_gap\<rparr>, m, demo_zero)"
  by (simp_all add: fc_region_def demo_add_region) (simp_all add: demo_gap_def)

lemma demo_fc_region_fatal:
  "fc_region mock_snp_ops mock_fet_ops demo_conf [demo_sam] reg_idx demo_region
     (th, demo_tally_fatal, demo_zero)
   = Inl (RuntimeError ''errcode -9'', th\<lparr>fp_reg := fp_reg th @ str_reg demo_region\<rparr>)"
proof -
  have sl: "snp_list demo_region = [] @ demo_snp # []"
    by (simp add: demo_region_def)
  have pre: "fc_fet1_snps mock_snp_ops mock_fet_ops demo_conf [demo_sam] [] demo_tally_fatal
               (add_region mock_fet_ops demo_zero demo_region)
             = Inr (None, demo_tally_fatal, add_region mock_fet_ops demo_zero demo_region)"
    by simp
  have neg: "(-5::int) < 0" "(-3::int) < 0" by simp_all
  from fc_region_abort [OF demo_region_ne fc_fet1_failed_at [OF sl pre demo_plp_snp_fatal neg(1)] neg(2)]
  show ?thesis .
qed

lemma demo_run:
  "fc_features mock_snp_ops mock_fet_ops demo_conf [demo_sam] [demo_gap, demo_region]
     demo_thdata demo_tally demo_feature = Inr demo_final"
  by (simp add: fc_features_def demo_fc_region_gap demo_fc_region)
     (simp add: region_out_def demo_rows demo_lines demo_triplets demo_thdata_def demo_final_def)

lemma demo_run_fatal:
  "fc_features mock_snp_ops mock_fet_ops demo_conf [demo_sam] [demo_gap, demo_region, demo_gap]
     demo_thdata demo_tally_fatal demo_feature
   = Inl (RuntimeError ''errcode -9'',
          demo_thdata\<lparr>ret := -1, fp_reg := str_reg demo_gap @ str_reg demo_region\<rparr>)"
  by (simp add: fc_features_def demo_fc_region_gap demo_fc_region_fatal)
     (simp add: demo_thdata_def)

theorem region_atomic_witness:
  "fc_region mock_snp_ops mock_fet_ops demo_conf [demo_sam] 1 demo_region
     (demo_thdata, demo_tally_fatal, demo_zero)
   = Inl (RuntimeError ''errcode -9'', demo_thdata\<lparr>fp_reg := str_reg demo_region\<rparr>)
   \<and> fp_ad (demo_thdata\<lparr>fp_reg := str_reg demo_region\<rparr>) = fp_ad demo_thdata
   \<and> fp_dp (demo_thdata\<lparr>fp_reg := str_reg demo_region\<rparr>) = fp_dp demo_thdata
   \<and> fp_oth (demo_thdata\<lparr>fp_reg := str_reg demo_region\<rparr>) = fp_oth demo_thdata
   \<and> fc_region mock_snp_ops mock_fet_ops demo_conf [demo_sam] 1 demo_region
        (demo_thdata, demo_tally, demo_zero)
      = Inr (region_out 1 demo_region (samples demo_conf) (run_alt, run_dp, run_oth) demo_thdata,
             \<lparr>script = [], tc = [6, 0, 4, 0, 0]\<rparr>, [(''S1'', 6, 4, 0, 0), (''S2'', 0, 0, 0, 0)])
   \<and> fp_ad (region_out 1 demo_region (samples demo_conf) (run_alt, run_dp, run_oth) demo_thdata)
        = ''2'' @ [TAB] @ ''1'' @ [TAB] @ ''4'' @ [NL]
   \<and> fp_dp (region_out 1 demo_region (samples demo_conf) (run_alt, run_dp, run_oth) demo_thdata)
        = ''2'' @ [TAB] @ ''1'' @ [TAB] @ ''10'' @ [NL]
   \<and> fp_oth (region_out 1 demo_region (samples demo_conf) (run_alt, run_dp, run_oth) demo_thdata)
        = []"
proof -
  let ?out = "region_out 1 demo_region (samples demo_conf) (run_alt, run_dp, run_oth) demo_thdata"
  have ab: "fc_region mock_snp_ops mock_fet_ops demo_conf [demo_sam] 1 demo_region
     (demo_thdata, demo_tally_fatal, demo_zero)
   = Inl (RuntimeError ''errcode -9'', demo_thdata\<lparr>fp_reg := str_reg demo_region\<rparr>)"
    using demo_fc_region_fatal [of 1 demo_thdata] by (simp add: demo_thdata_def)
  have w1: "fp_ad (demo_thdata\<lparr>fp_reg := str_reg demo_region\<rparr>) = fp_ad demo_thdata
   \<and> fp_dp (demo_thdata\<lparr>fp_reg := str_reg demo_region\<rparr>) = fp_dp demo_thdata
   \<and> fp_oth (demo_thdata\<lparr>fp_reg := str_reg demo_region\<rparr>) = fp_oth demo_thdata"
    using region_atomic [where sops = mock_snp_ops and fops = mock_fet_ops and conf = demo_conf
        and sam_list = "[demo_sam]" and reg_idx = 1 and reg = demo_region and th = demo_thdata
        and sm = demo_tally_fatal and fm = demo_zero and e = "RuntimeError ''errcode -9''"
        and th' = "demo_thdata\<lparr>fp_reg := str_reg demo_region\<rparr>", THEN conjunct1] ab
    by blast
  have f: "fc_fet1 mock_snp_ops mock_fet_ops demo_conf demo_region [demo_sam] demo_tally
             (add_region mock_fet_ops demo_zero demo_region)
     = Inr (0, Some (run_alt, run_dp, run_oth), \<lparr>script = [], tc = [6, 0, 4, 0, 0]\<rparr>,
            [(''S1'', 6, 4, 0, 0), (''S2'', 0, 0, 0, 0)])"
    by (simp add: demo_add_region demo_fc_fet1_zero)
  have "fp_ad ?out = fp_ad demo_thdata
          @ triplets 1 (sparse_rows run_alt (run_alt, run_dp, run_oth) 0 (samples demo_conf))
      \<and> fp_dp ?out = fp_dp demo_thdata
          @ triplets 1 (sparse_rows run_dp (run_alt, run_dp, run_oth) 0 (samples demo_conf))
      \<and> fp_oth ?out = fp_oth demo_thdata
          @ triplets 1 (sparse_rows run_oth (run_alt, run_dp, run_oth) 0 (samples demo_conf))"
    using region_atomic [where sops = mock_snp_ops and fops = mock_fet_ops and conf = demo_conf
        and sam_list = "[demo_sam]" and reg_idx = 1 and reg = demo_region and th = demo_thdata
        and sm = demo_tally and fm = demo_zero and th' = ?out
        and sm' = "\<lparr>script = [], tc = [6, 0, 4, 0, 0]\<rparr>"
        and fm' = "[(''S1'', 6, 4, 0, 0), (''S2'', 0, 0, 0, 0)]", THEN conjunct2]
      demo_fc_region [of 1 demo_thdata] demo_region_ne
    by (auto simp: f)
  then have w2: "fp_ad ?out = ''2'' @ [TAB] @ ''1'' @ [TAB] @ ''4'' @ [NL]
      \<and> fp_dp ?out = ''2'' @ [TAB] @ ''1'' @ [TAB] @ ''10'' @ [NL] \<and> fp_oth ?out = []"
    by (simp add: demo_rows demo_triplets demo_thdata_def)
  from ab w1 w2 demo_fc_region [of 1 demo_thdata] show ?thesis by blast
qed

theorem region_lines_witness:
  "fc_features mock_snp_ops mock_fet_ops demo_conf [demo_sam] [demo_gap, demo_region]
     demo_thdata demo_tally demo_feature = Inr demo_final
   \<and> fp_reg demo_final = str_reg demo_gap @ str_reg demo_region
   \<and> str_reg demo_gap = ''chr1'' @ [TAB] @ ''100'' @ [TAB] @ ''200'' @ [TAB] @ ''gap'' @ [NL]
   \<and> fc_features mock_snp_ops mock_fet_ops demo_conf [demo_sam] [demo_gap, demo_region, demo_gap]
        demo_thdata demo_tally_fatal demo_feature
      = Inl (RuntimeError ''errcode -9'',
             demo_thdata\<lparr>ret := -1, fp_reg := str_reg demo_gap @ str_reg demo_region\<rparr>)"
proof -
  have "fp_reg demo_final = concat (map str_reg [demo_gap, demo_region])"
    using region_lines [where sops = mock_snp_ops and fops = mock_fet_ops and conf = demo_conf
        and sam_list = "[demo_sam]" and reg_list = "[demo_gap, demo_region]" and th = demo_thdata
        and sm = demo_tally and fm = demo_feature and th' = demo_final, THEN conjunct1]
      demo_run
    by blast
  then have a: "fp_reg demo_final = str_reg demo_gap @ str_reg demo_region" by simp
  have b: "str_reg demo_gap = ''chr1'' @ [TAB] @ ''100'' @ [TAB] @ ''200'' @ [TAB] @ ''gap'' @ [NL]"
    using region_lines [where reg = demo_gap, THEN conjunct2, THEN conjunct2]
    by (simp add: demo_gap_def demo_fmt)
  from a b demo_run demo_run_fatal show ?thesis by blast
qed

theorem counts_consistent_witness:
  "fc_fet1 mock_snp_ops mock_fet_ops demo_conf demo_region [demo_sam] demo_tally demo_feature
     = Inr (0, Some (demo_alt, demo_dp, demo_oth), \<lparr>script = [], tc = [6, 0, 4, 0, 0]\<rparr>,
            [(''S1'', 6, 4, 0, 0), (''S2'', 3, 2, 1, 1)])
   \<and> demo_alt ''S2'' = Some 3 \<and> demo_dp ''S2'' = Some 7
   \<and> fst ` set (sparse_rows demo_alt (demo_alt, demo_dp, demo_oth) 0 (samples demo_conf))
        \<subseteq> fst ` set (sparse_rows demo_dp (demo_alt, demo_dp, demo_oth) 0 (samples demo_conf))
   \<and> fc_features mock_snp_ops mock_fet_ops demo_conf [demo_sam] [demo_gap, demo_region]
        demo_thdata demo_tally demo_feature = Inr demo_final
   \<and> nr_ad demo_final = nr_ad demo_thdata + int (count_list (fp_ad demo_final) NL)
   \<and> nr_dp demo_final = nr_dp demo_thdata + int (count_list (fp_dp demo_final) NL)
   \<and> nr_oth demo_final = nr_oth demo_thdata + int (count_list (fp_oth demo_final) NL)"
proof -
  let ?fm = "[(''S1'', 6, 4, 0, 0), (''S2'', 3, 2, 1, 1)] :: mock_feature"
  have nn: "\<forall>(smp, ac) \<in> set (cell_cnt mock_fet_ops ?fm). \<forall>k v. ac k = Some v \<longrightarrow> 0 \<le> v"
    by (auto simp: mock_fet_ops_def mock_allele_cnt_def split: if_splits)
  have a: "(\<forall>smp a d. demo_alt smp = Some a \<and> demo_dp smp = Some d \<longrightarrow> a \<le> d)
      \<and> fst ` set (sparse_rows demo_alt (demo_alt, demo_dp, demo_oth) 0 (samples demo_conf))
        \<subseteq> fst ` set (sparse_rows demo_dp (demo_alt, demo_dp, demo_oth) 0 (samples demo_conf))"
    using counts_consistent [where sops = mock_snp_ops and fops = mock_fet_ops
        and conf = demo_conf and reg = demo_region and sam_list = "[demo_sam]" and sm = demo_tally
        and fm = demo_feature and r = 0 and alt = demo_alt and dp = demo_dp and oth = demo_oth
        and sm' = "\<lparr>script = [], tc = [6, 0, 4, 0, 0]\<rparr>" and fm' = ?fm, THEN conjunct1]
      demo_fc_fet1 nn
    by blast
  have v: "demo_alt ''S2'' = Some 3" "demo_dp ''S2'' = Some 7"
    by (simp_all add: demo_alt_def demo_dp_def)
  have b: "nr_ad demo_final = nr_ad demo_thdata + int (count_list (fp_ad demo_final) NL)
   \<and> nr_dp demo_final = nr_dp demo_thdata + int (count_list (fp_dp demo_final) NL)
   \<and> nr_oth demo_final = nr_oth demo_thdata + int (count_list (fp_oth demo_final) NL)"
    using counts_consistent [where sops = mock_snp_ops and fops = mock_fet_ops
        and conf = demo_conf and sam_list = "[demo_sam]" and reg_list = "[demo_gap, demo_region]"
        and th = demo_thdata and sma = demo_tally and fma = demo_feature and th' = demo_final,
        THEN conjunct2]
      demo_run
    by blast
  from a v b demo_fc_fet1 demo_run show ?thesis by blast
qed

end
